theory Spec2Isabelle
  imports Main
begin

section \<open>Text primitives of the Go standard library used by the program\<close>

text \<open>
  Go strings are byte sequences; they are modelled as \<open>string\<close> (a list of \<open>char\<close>).
  The line terminator is the single byte 0x0A.
\<close>

definition LF :: char where
  "LF = CHR 0x0A"

text \<open>\<open>strings.Split(s, "\n")\<close>: never returns an empty slice; the empty string gives
  one empty line.\<close>

fun SplitLines :: "string \<Rightarrow> string list" where
  "SplitLines [] = [[]]"
| "SplitLines (c # cs) =
     (if c = LF then [] # SplitLines cs
      else (case SplitLines cs of
              [] \<Rightarrow> [[c]]
            | l # ls \<Rightarrow> (c # l) # ls))"

text \<open>\<open>strings.Join(parts, "\n")\<close>.\<close>

fun JoinLines :: "string list \<Rightarrow> string" where
  "JoinLines [] = []"
| "JoinLines [l] = l"
| "JoinLines (l # m # ls) = l @ LF # JoinLines (m # ls)"

section \<open>The regular-expression package as a parameter\<close>

text \<open>
  The program compiles and applies patterns through Go's \<open>regexp\<close> package, which is not
  part of the repository. The three operations the program calls are taken as a
  parameter: \<open>Compile\<close> (an error message or a compiled expression), \<open>MatchString\<close> and
  \<open>ReplaceAllString\<close> (expression, source text, replacement template).
\<close>

record 're regexp_pkg =
  Compile :: "string \<Rightarrow> string + 're"
  MatchString :: "'re \<Rightarrow> string \<Rightarrow> bool"
  ReplaceAllString :: "'re \<Rightarrow> string \<Rightarrow> string \<Rightarrow> string"

text \<open>
  One concrete instance, used to evaluate the program on explicit inputs: the fragment
  of the package in which a pattern consists of literal bytes only and a replacement
  template contains no \<open>$\<close>. On that fragment a pattern compiles to itself, matches
  where it occurs as a substring, and \<open>ReplaceAllString\<close> rewrites the leftmost
  non-overlapping occurrences (an empty pattern matches before every byte and at the
  end). A pattern that contains a metacharacter is outside the fragment and is rejected
  by the instance; the pattern \<open>(\<close>, which the Go package rejects as well
  (missing closing parenthesis), is the rejected pattern used below.
\<close>

definition lit_meta :: "char set" where
  "lit_meta = insert (CHR 0x5C) (set ''.+*?()|[]{}^$'')"

definition lit_Compile :: "string \<Rightarrow> string + string" where
  "lit_Compile p =
     (if \<exists>c \<in> set p. c \<in> lit_meta then Inl ''error parsing regexp'' else Inr p)"

fun lit_MatchString :: "string \<Rightarrow> string \<Rightarrow> bool" where
  "lit_MatchString p [] = (p = [])"
| "lit_MatchString p (c # cs) = (take (length p) (c # cs) = p \<or> lit_MatchString p cs)"

text \<open>\<open>k\<close> counts the bytes of the current match that are still to be consumed.\<close>

fun lit_replace :: "string \<Rightarrow> string \<Rightarrow> nat \<Rightarrow> string \<Rightarrow> string" where
  "lit_replace p r k [] = []"
| "lit_replace p r (Suc k) (c # cs) = lit_replace p r k cs"
| "lit_replace p r 0 (c # cs) =
     (if take (length p) (c # cs) = p then r @ lit_replace p r (length p - 1) cs
      else c # lit_replace p r 0 cs)"

definition lit_ReplaceAllString :: "string \<Rightarrow> string \<Rightarrow> string \<Rightarrow> string" where
  "lit_ReplaceAllString p src r =
     (if p = [] then r @ concat (map (\<lambda>c. c # r) src) else lit_replace p r 0 src)"

definition lit_pkg :: "string regexp_pkg" where
  "lit_pkg = \<lparr> Compile = lit_Compile, MatchString = lit_MatchString,
               ReplaceAllString = lit_ReplaceAllString \<rparr>"

section \<open>Configuration descriptors (package config)\<close>

text \<open>The cached compiled expressions (\<open>regex\<close>, \<open>promptRegex\<close>) are not fields of the
  model: compilation is a function of the pattern, and \<open>Regex()\<close> is modelled as
  compiling the pattern at each call.\<close>

record ExpectRule =
  Pattern :: string
  Send :: string
  Replace :: string

record FilterRule =
  FilterPattern :: string
  FilterReplace :: string

record ConnectionConfig =
  PostLogin :: "string list"
  PreLogout :: string

record Model =
  Prompt :: string
  Comment :: string
  Connection :: ConnectionConfig
  Expect :: "ExpectRule list"
  Secrets :: "FilterRule list"
  Comments :: "string list"
  Commands :: "string list"

text \<open>A device entry of the device list; the timeout is in nanoseconds.\<close>

record Device =
  Name :: string
  IP :: string
  Model :: string
  Group :: string
  Port :: int
  Username :: string
  Password :: string
  Timeout :: int

text \<open>Go errors, one constructor for each place that creates or wraps one.\<close>

datatype error =
    CompileExpect string string
  | CompileFilter string string
  | CompilePrompt string string
  | SecretPattern error
  | ExpectPattern error
  | ReadModelFile string
  | ParseModelFile string
  | NoModelsDefined
  | PromptRequired string
  | InModel string error
  | InModelExpect string nat error
  | InModelSecrets string nat error
  | CommandRequired string
  | TimeoutWaiting
  | ReadError string
  | SendCommand string
  | ExecuteQ string error
  | ExecuteComment string error
  | PostLoginErr error
  | WaitInitialPrompt error
  | ConnectFault string
  | ModelNotFound string
  | WriteFault string

definition ExpectRule_Regex :: "'re regexp_pkg \<Rightarrow> ExpectRule \<Rightarrow> error + 're" where
  "ExpectRule_Regex L e =
     (case Compile L (Pattern e) of
        Inl msg \<Rightarrow> Inl (CompileExpect (Pattern e) msg)
      | Inr re \<Rightarrow> Inr re)"

definition FilterRule_Regex :: "'re regexp_pkg \<Rightarrow> FilterRule \<Rightarrow> error + 're" where
  "FilterRule_Regex L f =
     (case Compile L (FilterPattern f) of
        Inl msg \<Rightarrow> Inl (CompileFilter (FilterPattern f) msg)
      | Inr re \<Rightarrow> Inr re)"

definition PromptRegex :: "'re regexp_pkg \<Rightarrow> Model \<Rightarrow> error + 're" where
  "PromptRegex L m =
     (case Compile L (Prompt m) of
        Inl msg \<Rightarrow> Inl (CompilePrompt (Prompt m) msg)
      | Inr re \<Rightarrow> Inr re)"

section \<open>The output filtering pipeline (package executor)\<close>

fun applySecrets :: "'re regexp_pkg \<Rightarrow> string \<Rightarrow> FilterRule list \<Rightarrow> error + string" where
  "applySecrets L output [] = Inr output"
| "applySecrets L output (secret # secrets) =
     (case FilterRule_Regex L secret of
        Inl err \<Rightarrow> Inl (SecretPattern err)
      | Inr re \<Rightarrow> applySecrets L (ReplaceAllString L re output (FilterReplace secret)) secrets)"

fun applyExpectReplacements ::
    "'re regexp_pkg \<Rightarrow> string \<Rightarrow> ExpectRule list \<Rightarrow> error + string" where
  "applyExpectReplacements L output [] = Inr output"
| "applyExpectReplacements L output (expect # expects) =
     (if Replace expect = [] \<and> Send expect \<noteq> [] then applyExpectReplacements L output expects
      else (case ExpectRule_Regex L expect of
              Inl err \<Rightarrow> Inl (ExpectPattern err)
            | Inr re \<Rightarrow>
                applyExpectReplacements L (ReplaceAllString L re output (Replace expect)) expects))"

definition processOutput :: "'re regexp_pkg \<Rightarrow> string \<Rightarrow> Model \<Rightarrow> error + string" where
  "processOutput L rawOutput model =
     (case applySecrets L rawOutput (Secrets model) of
        Inl err \<Rightarrow> Inl err
      | Inr output \<Rightarrow>
          (case applyExpectReplacements L output (Expect model) of
             Inl err \<Rightarrow> Inl err
           | Inr output' \<Rightarrow> Inr output'))"

definition commentAllLines :: "string \<Rightarrow> string \<Rightarrow> string" where
  "commentAllLines output prefix =
     (if output = [] \<or> prefix = [] then output
      else JoinLines (map (\<lambda>line. if line \<noteq> [] then prefix @ line else line)
                          (SplitLines output)))"

text \<open>The forward scan for the first non-empty line, from index \<open>i\<close> on; \<open>None\<close> is
  the source's \<open>-1\<close>.\<close>

fun firstNonEmpty :: "string list \<Rightarrow> nat \<Rightarrow> nat option" where
  "firstNonEmpty [] i = None"
| "firstNonEmpty (line # rest) i = (if line \<noteq> [] then Some i else firstNonEmpty rest (Suc i))"

text \<open>The backward scan over the indices \<open>n - 1, \<dots>, 0\<close>.\<close>

fun lastNonEmpty :: "string list \<Rightarrow> nat \<Rightarrow> nat option" where
  "lastNonEmpty lines 0 = None"
| "lastNonEmpty lines (Suc i) = (if lines ! i \<noteq> [] then Some i else lastNonEmpty lines i)"

text \<open>
  The result is \<open>None\<close> where the source would index the slice at \<open>-1\<close> (a run-time
  panic): the backward scan finding nothing after the forward scan found a line.
\<close>

definition commentFirstLastLines :: "string \<Rightarrow> string \<Rightarrow> string option" where
  "commentFirstLastLines output prefix =
     (if output = [] \<or> prefix = [] then Some output
      else let lines = SplitLines output in
        if length lines = 0 then Some output
        else (case firstNonEmpty lines 0 of
                None \<Rightarrow> Some output
              | Some firstIdx \<Rightarrow>
                  (case lastNonEmpty lines (length lines) of
                     None \<Rightarrow> None
                   | Some lastIdx \<Rightarrow>
                       let lines1 = lines[firstIdx := prefix @ lines ! firstIdx];
                           lines2 = (if lastIdx \<noteq> firstIdx
                                     then lines1[lastIdx := prefix @ lines1 ! lastIdx]
                                     else lines1)
                       in Some (JoinLines lines2))))"

text \<open>
  The result of backing up one device. An absent text is the empty string, as in the
  source.
\<close>

record Result =
  Device :: Device
  Output :: string
  Error :: "error option"

text \<open>
  The two loops of \<open>Execute\<close> over the captured outputs, with the slice \<open>outputParts\<close> as
  an argument, and the rest of \<open>Execute\<close> after the call of
  \<open>transport.ConnectAndExecute\<close>, as a function \<open>buildResult\<close> of what that call returned.
  The second loop, and with it \<open>buildResult\<close>, inherits \<open>None\<close> from
  \<open>commentFirstLastLines\<close>.
\<close>

fun commentsLoop ::
    "'re regexp_pkg \<Rightarrow> Model \<Rightarrow> string list \<Rightarrow> string list \<Rightarrow> error + string list" where
  "commentsLoop L model [] outputParts = Inr outputParts"
| "commentsLoop L model (output # outputs) outputParts =
     (case processOutput L output model of
        Inl err \<Rightarrow> Inl err
      | Inr processed \<Rightarrow>
          let processed' = commentAllLines processed (Comment model) in
          commentsLoop L model outputs
            (if processed' \<noteq> [] then outputParts @ [processed'] else outputParts))"

fun commandsLoop ::
    "'re regexp_pkg \<Rightarrow> Model \<Rightarrow> string list \<Rightarrow> string list
       \<Rightarrow> (error + string list) option" where
  "commandsLoop L model [] outputParts = Some (Inr outputParts)"
| "commandsLoop L model (output # outputs) outputParts =
     (case processOutput L output model of
        Inl err \<Rightarrow> Some (Inl err)
      | Inr processed \<Rightarrow>
          (case commentFirstLastLines processed (Comment model) of
             None \<Rightarrow> None
           | Some processed' \<Rightarrow>
               commandsLoop L model outputs
                 (if processed' \<noteq> [] then outputParts @ [processed'] else outputParts)))"

definition buildResult ::
    "'re regexp_pkg \<Rightarrow> Device \<Rightarrow> Model \<Rightarrow> string list \<times> string list \<times> error option
       \<Rightarrow> Result option" where
  "buildResult L device model r =
     (case r of
        (commentsOutputs, commandsOutputs, Some err) \<Rightarrow>
          Some \<lparr> Device = device, Output = [], Error = Some err \<rparr>
      | (commentsOutputs, commandsOutputs, None) \<Rightarrow>
          (case commentsLoop L model commentsOutputs [] of
             Inl err \<Rightarrow> Some \<lparr> Device = device, Output = [], Error = Some err \<rparr>
           | Inr parts \<Rightarrow>
               (case commandsLoop L model commandsOutputs parts of
                  None \<Rightarrow> None
                | Some (Inl err) \<Rightarrow> Some \<lparr> Device = device, Output = [], Error = Some err \<rparr>
                | Some (Inr parts') \<Rightarrow>
                    Some \<lparr> Device = device, Output = JoinLines parts', Error = None \<rparr>)))"

section \<open>The session engine (package transport)\<close>

definition EffectiveTimeout :: "Device \<Rightarrow> int" where
  "EffectiveTimeout d = (if Timeout d = 0 then 30 * 1000000000 else Timeout d)"

text \<open>
  The remote side of one session, as the program observes it. \<open>connect_fault\<close> is the
  outcome of dialling, the handshake and the terminal and shell requests (a message when
  one of them fails). \<open>rd k\<close> is what the \<open>k\<close>-th call of \<open>Read\<close> on the session's
  output returns: the bytes read and the error, or \<open>Blocked\<close> when the call never
  returns. \<open>now k\<close> is the value (in nanoseconds) of the \<open>k\<close>-th reading of the clock.
  \<open>wr_fault k\<close> is the error of the \<open>k\<close>-th write to the session's input, if any.
\<close>

datatype read_err = EOF | Fault string

datatype read_result = Blocked | Got string "read_err option"

record device_env =
  connect_fault :: "string option"
  now :: "nat \<Rightarrow> int"
  rd :: "nat \<Rightarrow> read_result"
  wr_fault :: "nat \<Rightarrow> string option"

text \<open>The session: what it has written so far, how many reads have returned, how many
  times it has read the clock, and the accumulation buffer. The model and the timeout
  never change and are passed along.\<close>

record Session =
  sent :: "string list"
  nreads :: nat
  nclock :: nat
  buffer :: string

definition NewSession :: Session where
  "NewSession = \<lparr> sent = [], nreads = 0, nclock = 0, buffer = [] \<rparr>"

definition Session_Send :: "device_env \<Rightarrow> Session \<Rightarrow> string \<Rightarrow> Session \<times> string option" where
  "Session_Send E s cmd = (s\<lparr>sent := sent s @ [cmd]\<rparr>, wr_fault E (length (sent s)))"

definition SendLine :: "device_env \<Rightarrow> Session \<Rightarrow> string \<Rightarrow> Session \<times> string option" where
  "SendLine E s cmd = Session_Send E s (cmd @ [LF])"

text \<open>The loop of \<open>processExpectRules\<close>, with the local variables \<open>content\<close> and
  \<open>handled\<close> as arguments; the error of \<open>Send\<close> is dropped, as in the source.\<close>

fun processExpectRules ::
    "'re regexp_pkg \<Rightarrow> device_env \<Rightarrow> ExpectRule list \<Rightarrow> Session \<Rightarrow> string \<Rightarrow> bool
       \<Rightarrow> Session \<times> string \<times> bool" where
  "processExpectRules L E [] s content handled = (s, content, handled)"
| "processExpectRules L E (rule # rules) s content handled =
     (case ExpectRule_Regex L rule of
        Inl err \<Rightarrow> processExpectRules L E rules s content handled
      | Inr re \<Rightarrow>
          if MatchString L re content then
            let s' = (if Send rule \<noteq> [] then fst (Session_Send E s (Send rule)) else s) in
            if Replace rule \<noteq> [] \<or> Send rule \<noteq> []
            then processExpectRules L E rules s'
                   (ReplaceAllString L re content (Replace rule)) True
            else processExpectRules L E rules s' content handled
          else processExpectRules L E rules s content handled)"

text \<open>What \<open>readUntil\<close> does with the \<open>n\<close> bytes of a read that returned no error.\<close>

definition absorb :: "'re regexp_pkg \<Rightarrow> device_env \<Rightarrow> Model \<Rightarrow> Session \<Rightarrow> string \<Rightarrow> Session" where
  "absorb L E model s data =
     (let s2 = s\<lparr>buffer := buffer s @ data\<rparr>;
          (s3, content, handled) = processExpectRules L E (Expect model) s2 (buffer s2) False
      in if handled then s3\<lparr>buffer := content\<rparr> else s3)"

text \<open>One iteration of the loop of \<open>readUntil\<close>, which starts by reading the clock:
  it returns (\<open>Done\<close>: the session, the text and the error returned), goes round again
  (\<open>Continue\<close>), or never comes back from \<open>Read\<close> (\<open>Stuck\<close>).\<close>

datatype step = Stuck | Done "Session \<times> string \<times> error option" | Continue Session

definition readUntil_step ::
    "'re regexp_pkg \<Rightarrow> device_env \<Rightarrow> Model \<Rightarrow> 're \<Rightarrow> int \<Rightarrow> Session \<Rightarrow> step" where
  "readUntil_step L E model pattern deadline s =
     (let s0 = s\<lparr>nclock := Suc (nclock s)\<rparr> in
      if now E (nclock s) > deadline then Done (s0, buffer s0, Some TimeoutWaiting)
      else (case rd E (nreads s0) of
              Blocked \<Rightarrow> Stuck
            | Got data err \<Rightarrow>
                let s1 = s0\<lparr>nreads := Suc (nreads s0)\<rparr> in
                (case err of
                   Some EOF \<Rightarrow> Done (s1, buffer s1, None)
                 | Some (Fault msg) \<Rightarrow> Done (s1, buffer s1, Some (ReadError msg))
                 | None \<Rightarrow>
                     if length data > 0 then
                       let s4 = absorb L E model s1 data
                       in if MatchString L pattern (buffer s4) then Done (s4, buffer s4, None)
                          else Continue s4
                     else Continue s1)))"

text \<open>The loop itself; \<open>None\<close> is a call that never returns.\<close>

partial_function (option) readUntil_loop ::
    "'re regexp_pkg \<Rightarrow> device_env \<Rightarrow> Model \<Rightarrow> 're \<Rightarrow> int \<Rightarrow> Session
       \<Rightarrow> (Session \<times> string \<times> error option) option" where
  "readUntil_loop L E model pattern deadline s =
     (case readUntil_step L E model pattern deadline s of
        Stuck \<Rightarrow> None
      | Done r \<Rightarrow> Some r
      | Continue s' \<Rightarrow> readUntil_loop L E model pattern deadline s')"

declare readUntil_loop.simps [code]

definition readUntil ::
    "'re regexp_pkg \<Rightarrow> device_env \<Rightarrow> Model \<Rightarrow> int \<Rightarrow> 're \<Rightarrow> Session
       \<Rightarrow> (Session \<times> string \<times> error option) option" where
  "readUntil L E model timeout pattern s =
     (let s0 = s\<lparr>buffer := [], nclock := Suc (nclock s)\<rparr>;
          deadline = now E (nclock s) + timeout
      in readUntil_loop L E model pattern deadline s0)"

definition ReadUntilPrompt ::
    "'re regexp_pkg \<Rightarrow> device_env \<Rightarrow> Model \<Rightarrow> int \<Rightarrow> Session
       \<Rightarrow> (Session \<times> string \<times> error option) option" where
  "ReadUntilPrompt L E model timeout s =
     (case PromptRegex L model of
        Inl err \<Rightarrow> Some (s, [], Some err)
      | Inr promptRe \<Rightarrow> readUntil L E model timeout promptRe s)"

text \<open>The method \<open>Execute\<close> of a session (\<open>Execute\<close> itself is the function of package
  executor, below).\<close>

definition Session_Execute ::
    "'re regexp_pkg \<Rightarrow> device_env \<Rightarrow> Model \<Rightarrow> int \<Rightarrow> Session \<Rightarrow> string
       \<Rightarrow> (Session \<times> string \<times> error option) option" where
  "Session_Execute L E model timeout s cmd =
     (case SendLine E s cmd of
        (s1, Some msg) \<Rightarrow> Some (s1, [], Some (SendCommand msg))
      | (s1, None) \<Rightarrow> ReadUntilPrompt L E model timeout s1)"

fun ExecutePostLogin ::
    "'re regexp_pkg \<Rightarrow> device_env \<Rightarrow> Model \<Rightarrow> int \<Rightarrow> Session \<Rightarrow> string list
       \<Rightarrow> (Session \<times> error option) option" where
  "ExecutePostLogin L E model timeout s [] = Some (s, None)"
| "ExecutePostLogin L E model timeout s (cmd # cmds) =
     (case Session_Execute L E model timeout s cmd of
        None \<Rightarrow> None
      | Some (s1, out, Some err) \<Rightarrow> Some (s1, Some (ExecuteQ cmd err))
      | Some (s1, out, None) \<Rightarrow> ExecutePostLogin L E model timeout s1 cmds)"

definition ExecutePreLogout :: "device_env \<Rightarrow> Model \<Rightarrow> Session \<Rightarrow> Session \<times> string option" where
  "ExecutePreLogout E model s =
     (if PreLogout (Connection model) \<noteq> [] then SendLine E s (PreLogout (Connection model))
      else (s, None))"

definition Connect ::
    "'re regexp_pkg \<Rightarrow> device_env \<Rightarrow> Device \<Rightarrow> Model \<Rightarrow> (Session \<times> error option) option" where
  "Connect L E device model =
     (case connect_fault E of
        Some msg \<Rightarrow> Some (NewSession, Some (ConnectFault msg))
      | None \<Rightarrow>
          (case ReadUntilPrompt L E model (EffectiveTimeout device) NewSession of
             None \<Rightarrow> None
           | Some (s1, out, Some err) \<Rightarrow> Some (s1, Some (WaitInitialPrompt err))
           | Some (s1, out, None) \<Rightarrow>
               (case ExecutePostLogin L E model (EffectiveTimeout device) s1
                       (PostLogin (Connection model)) of
                  None \<Rightarrow> None
                | Some (s2, Some err) \<Rightarrow> Some (s2, Some (PostLoginErr err))
                | Some (s2, None) \<Rightarrow> Some (s2, None))))"

text \<open>The two command loops of \<open>ConnectAndExecute\<close> differ in how they wrap the error
  only (\<open>wrap\<close>); each stops at the first command that fails.\<close>

fun executeEach ::
    "'re regexp_pkg \<Rightarrow> device_env \<Rightarrow> Model \<Rightarrow> int \<Rightarrow> (string \<Rightarrow> error \<Rightarrow> error)
       \<Rightarrow> Session \<Rightarrow> string list \<Rightarrow> (Session \<times> (error + string list)) option" where
  "executeEach L E model timeout wrap s [] = Some (s, Inr [])"
| "executeEach L E model timeout wrap s (cmd # cmds) =
     (case Session_Execute L E model timeout s cmd of
        None \<Rightarrow> None
      | Some (s1, result, Some err) \<Rightarrow> Some (s1, Inl (wrap cmd err))
      | Some (s1, result, None) \<Rightarrow>
          (case executeEach L E model timeout wrap s1 cmds of
             None \<Rightarrow> None
           | Some (s2, Inl err) \<Rightarrow> Some (s2, Inl err)
           | Some (s2, Inr results) \<Rightarrow> Some (s2, Inr (result # results))))"

text \<open>The session at the end is returned as well, so that what was written can be
  observed. Closing the connection and the final pause change nothing that is returned.\<close>

definition ConnectAndExecute ::
    "'re regexp_pkg \<Rightarrow> device_env \<Rightarrow> Device \<Rightarrow> Model
       \<Rightarrow> (Session \<times> string list \<times> string list \<times> error option) option" where
  "ConnectAndExecute L E device model =
     (case Connect L E device model of
        None \<Rightarrow> None
      | Some (s0, Some err) \<Rightarrow> Some (s0, [], [], Some err)
      | Some (s0, None) \<Rightarrow>
          (case executeEach L E model (EffectiveTimeout device) ExecuteComment s0
                  (Comments model) of
             None \<Rightarrow> None
           | Some (s1, Inl err) \<Rightarrow> Some (s1, [], [], Some err)
           | Some (s1, Inr commentsOutputs) \<Rightarrow>
               (case executeEach L E model (EffectiveTimeout device) ExecuteQ s1
                       (Commands model) of
                  None \<Rightarrow> None
                | Some (s2, Inl err) \<Rightarrow> Some (s2, commentsOutputs, [], Some err)
                | Some (s2, Inr commandsOutputs) \<Rightarrow>
                    Some (fst (ExecutePreLogout E model s2),
                          commentsOutputs, commandsOutputs, None))))"

text \<open>\<open>Execute\<close> of package executor: \<open>None\<close> when the session never returns.\<close>

definition Execute ::
    "'re regexp_pkg \<Rightarrow> device_env \<Rightarrow> Device \<Rightarrow> Model \<Rightarrow> Result option" where
  "Execute L E device model =
     (case ConnectAndExecute L E device model of
        None \<Rightarrow> None
      | Some (s, r) \<Rightarrow> buildResult L device model r)"

section \<open>Loading and validating the model file (package config)\<close>

text \<open>
  The models are a Go map from names to pointers; the list gives its entries in the order
  in which the validation loop happens to visit them, a lookup is \<open>map_of\<close>, and the
  value \<open>None\<close> is the nil pointer that decoding leaves for a model without a body.
\<close>

record ModelFile =
  Models :: "(string \<times> Model option) list"

record RouterDB =
  Devices :: "Device list"

fun validateExpect :: "'re regexp_pkg \<Rightarrow> string \<Rightarrow> nat \<Rightarrow> ExpectRule list \<Rightarrow> error option" where
  "validateExpect L name i [] = None"
| "validateExpect L name i (e # es) =
     (case ExpectRule_Regex L e of
        Inl err \<Rightarrow> Some (InModelExpect name i err)
      | Inr re \<Rightarrow> validateExpect L name (Suc i) es)"

fun validateSecrets :: "'re regexp_pkg \<Rightarrow> string \<Rightarrow> nat \<Rightarrow> FilterRule list \<Rightarrow> error option" where
  "validateSecrets L name i [] = None"
| "validateSecrets L name i (s # ss) =
     (case FilterRule_Regex L s of
        Inl err \<Rightarrow> Some (InModelSecrets name i err)
      | Inr re \<Rightarrow> validateSecrets L name (Suc i) ss)"

text \<open>
  The loop of \<open>validateModelFile\<close> over the entries. The result \<open>None\<close> is the run-time
  panic of reading \<open>m.Prompt\<close> through a nil pointer; \<open>Some None\<close> is the nil error.
\<close>

fun validateModels ::
    "'re regexp_pkg \<Rightarrow> (string \<times> Model option) list \<Rightarrow> error option option" where
  "validateModels L [] = Some None"
| "validateModels L ((name, None) # rest) = None"
| "validateModels L ((name, Some m) # rest) =
     (if Prompt m = [] then Some (Some (PromptRequired name))
      else (case PromptRegex L m of
              Inl err \<Rightarrow> Some (Some (InModel name err))
            | Inr re \<Rightarrow>
                (case validateExpect L name 0 (Expect m) of
                   Some err \<Rightarrow> Some (Some err)
                 | None \<Rightarrow>
                     (case validateSecrets L name 0 (Secrets m) of
                        Some err \<Rightarrow> Some (Some err)
                      | None \<Rightarrow>
                          if length (Commands m) = 0 then Some (Some (CommandRequired name))
                          else validateModels L rest))))"

definition validateModelFile :: "'re regexp_pkg \<Rightarrow> ModelFile \<Rightarrow> error option option" where
  "validateModelFile L mf =
     (if length (Models mf) = 0 then Some (Some NoModelsDefined)
      else validateModels L (Models mf))"

text \<open>Reading the file and decoding the YAML are the arguments \<open>readFile\<close> and
  \<open>unmarshal\<close>; \<open>None\<close> is the panic of the validation.\<close>

definition LoadModelFile ::
    "'re regexp_pkg \<Rightarrow> (string \<Rightarrow> string + string) \<Rightarrow> (string \<Rightarrow> string + ModelFile)
       \<Rightarrow> string \<Rightarrow> (error + ModelFile) option" where
  "LoadModelFile L readFile unmarshal path =
     (case readFile path of
        Inl msg \<Rightarrow> Some (Inl (ReadModelFile msg))
      | Inr data \<Rightarrow>
          (case unmarshal data of
             Inl msg \<Rightarrow> Some (Inl (ParseModelFile msg))
           | Inr mf \<Rightarrow>
               (case validateModelFile L mf of
                  None \<Rightarrow> None
                | Some (Some err) \<Rightarrow> Some (Inl err)
                | Some None \<Rightarrow> Some (Inr mf))))"

section \<open>The orchestrator (package main)\<close>

text \<open>
  Everything outside the process: the two loaders' file system, the output directory,
  and for the device at position \<open>i\<close> of the device list its remote side \<open>envs i\<close>,
  the error \<open>wfaults i\<close> of writing its file (if any) and the instant \<open>finish i\<close> at
  which its result reaches the result channel. The channel hands the results over in the
  order of these instants.
\<close>

record host =
  loadRouterDB :: "string \<Rightarrow> error + RouterDB"
  readFile :: "string \<Rightarrow> string + string"
  unmarshal :: "string \<Rightarrow> string + ModelFile"
  ensureDir :: "string option"
  envs :: "nat \<Rightarrow> device_env"
  wfaults :: "nat \<Rightarrow> string option"
  finish :: "nat \<Rightarrow> nat"

text \<open>The body of the goroutine started for a device, once it holds a slot of the
  semaphore: the result it sends, and the file it wrote (name, group, content), if it
  wrote one.\<close>

definition deviceTask ::
    "'re regexp_pkg \<Rightarrow> device_env \<Rightarrow> string option \<Rightarrow> Device \<Rightarrow> Model
       \<Rightarrow> (Result \<times> (string \<times> string \<times> string) option) option" where
  "deviceTask L E wfault d m =
     (case Execute L E d m of
        None \<Rightarrow> None
      | Some result \<Rightarrow>
          if Error result = None then
            (case wfault of
               Some msg \<Rightarrow> Some (result\<lparr>Error := Some (WriteFault msg)\<rparr>,
                                 Some (Name d, Group d, Output result))
             | None \<Rightarrow> Some (result, Some (Name d, Group d, Output result)))
          else Some (result, None))"

text \<open>
  The same goroutine when the map holds a nil pointer for the model: \<open>Connect\<close> dials and
  opens the shell from the device alone, and returns the fault if one of these fails;
  once connected, the first prompt read goes through the nil pointer and the program
  panics.
\<close>

definition nilModelTask ::
    "device_env \<Rightarrow> Device \<Rightarrow> (Result \<times> (string \<times> string \<times> string) option) option" where
  "nilModelTask E d =
     (case connect_fault E of
        Some msg \<Rightarrow> Some (\<lparr> Device = d, Output = [], Error = Some (ConnectFault msg) \<rparr>, None)
      | None \<Rightarrow> None)"

text \<open>
  One round of the dispatch loop of \<open>executeBackups\<close>: a result sent at once, or a
  goroutine started. With a semaphore of capacity 0 no goroutine ever gets a slot.
\<close>

datatype outcome =
    Immediate Result
  | Spawned "(Result \<times> (string \<times> string \<times> string) option) option"

definition dispatch ::
    "'re regexp_pkg \<Rightarrow> host \<Rightarrow> int \<Rightarrow> ModelFile \<Rightarrow> nat \<Rightarrow> Device \<Rightarrow> outcome" where
  "dispatch L H workers modelFile i device =
     (case map_of (Models modelFile) (Model device) of
        None \<Rightarrow> Immediate \<lparr> Device = device, Output = [],
                             Error = Some (ModelNotFound (Model device)) \<rparr>
      | Some model \<Rightarrow>
          Spawned (if workers = 0 then None
                   else (case model of
                           None \<Rightarrow> nilModelTask (envs H i) device
                         | Some m \<Rightarrow> deviceTask L (envs H i) (wfaults H i) device m)))"

definition outcomes ::
    "'re regexp_pkg \<Rightarrow> host \<Rightarrow> int \<Rightarrow> RouterDB \<Rightarrow> ModelFile \<Rightarrow> outcome list" where
  "outcomes L H workers routerdb modelFile =
     map (\<lambda>i. dispatch L H workers modelFile i (Devices routerdb ! i))
         [0..<length (Devices routerdb)]"

fun delivered :: "outcome \<Rightarrow> Result option" where
  "delivered (Immediate r) = Some r"
| "delivered (Spawned None) = None"
| "delivered (Spawned (Some (r, w))) = Some r"

fun started :: "outcome \<Rightarrow> bool" where
  "started (Immediate r) = False"
| "started (Spawned t) = True"

text \<open>
  \<open>executeBackups\<close> returns once every goroutine is done; \<open>None\<close> when it does not
  return (a goroutine that never finishes or panics, or the panic of a negative channel
  capacity).
\<close>

definition executeBackups ::
    "'re regexp_pkg \<Rightarrow> host \<Rightarrow> int \<Rightarrow> RouterDB \<Rightarrow> ModelFile \<Rightarrow> Result list option" where
  "executeBackups L H workers routerdb modelFile =
     (if workers < 0 then None
      else let sends = map delivered (outcomes L H workers routerdb modelFile) in
        if None \<in> set sends then None
        else Some (map (\<lambda>k. the (sends ! k))
                       (sort_key (finish H) [0..<length (Devices routerdb)])))"

text \<open>The positions of the devices for which a goroutine, and with it the only call of
  \<open>Execute\<close> and of \<open>Connect\<close>, is started.\<close>

definition startedTasks ::
    "'re regexp_pkg \<Rightarrow> host \<Rightarrow> int \<Rightarrow> RouterDB \<Rightarrow> ModelFile \<Rightarrow> nat list" where
  "startedTasks L H workers routerdb modelFile =
     (if workers < 0 then []
      else filter (\<lambda>i. started (outcomes L H workers routerdb modelFile ! i))
                  [0..<length (Devices routerdb)])"

text \<open>\<open>main\<close>: the exit status and the goroutines started; \<open>None\<close> when it panics or
  does not return.\<close>

definition main ::
    "'re regexp_pkg \<Rightarrow> host \<Rightarrow> string \<Rightarrow> string \<Rightarrow> int \<Rightarrow> (int \<times> nat list) option" where
  "main L H routerdbPath modelPath workers =
     (if routerdbPath = [] \<or> modelPath = [] then Some (1, [])
      else (case loadRouterDB H routerdbPath of
              Inl err \<Rightarrow> Some (1, [])
            | Inr routerdb \<Rightarrow>
                (case LoadModelFile L (readFile H) (unmarshal H) modelPath of
                   None \<Rightarrow> None
                 | Some (Inl err) \<Rightarrow> Some (1, [])
                 | Some (Inr modelFile) \<Rightarrow>
                     (case ensureDir H of
                        Some msg \<Rightarrow> Some (1, [])
                      | None \<Rightarrow>
                          (case executeBackups L H workers routerdb modelFile of
                             None \<Rightarrow> None
                           | Some results \<Rightarrow>
                               let failed = length (filter (\<lambda>r. Error r \<noteq> None) results)
                               in Some (if failed > 0 then 1 else 0,
                                        startedTasks L H workers routerdb modelFile))))))"

section \<open>Notions used to state the properties\<close>

text \<open>The positions of the non-empty lines, in increasing order, and the positions of
  the first and the last of them.\<close>

definition nonEmptyIdx :: "string list \<Rightarrow> nat list" where
  "nonEmptyIdx ls = filter (\<lambda>i. ls ! i \<noteq> []) [0..<length ls]"

definition boundaryIdx :: "string list \<Rightarrow> nat set" where
  "boundaryIdx ls = (case nonEmptyIdx ls of [] \<Rightarrow> {} | i # rest \<Rightarrow> {i, last (i # rest)})"

text \<open>
  The words of the specification about patterns, as functions: a pattern that does not
  compile matches nothing and substitutes nothing.
\<close>

definition pattern_matches :: "'re regexp_pkg \<Rightarrow> string \<Rightarrow> string \<Rightarrow> bool" where
  "pattern_matches L pattern text =
     (case Compile L pattern of Inl msg \<Rightarrow> False | Inr re \<Rightarrow> MatchString L re text)"

definition substitute :: "'re regexp_pkg \<Rightarrow> string \<Rightarrow> string \<Rightarrow> string \<Rightarrow> string" where
  "substitute L pattern replacement text =
     (case Compile L pattern of
        Inl msg \<Rightarrow> text
      | Inr re \<Rightarrow> ReplaceAllString L re text replacement)"

text \<open>
  Redaction: each secret rule in declared order, later rules seeing the output of the
  earlier ones. The residual replacement: the same for the interrupt rules, a rule with
  send-text and no replacement-text left out.
\<close>

definition redact :: "'re regexp_pkg \<Rightarrow> FilterRule list \<Rightarrow> string \<Rightarrow> string" where
  "redact L secrets text =
     foldl (\<lambda>t f. substitute L (FilterPattern f) (FilterReplace f) t) text secrets"

definition residual :: "'re regexp_pkg \<Rightarrow> ExpectRule list \<Rightarrow> string \<Rightarrow> string" where
  "residual L rules text =
     foldl (\<lambda>t e. if Replace e = [] \<and> Send e \<noteq> [] then t
                   else substitute L (Pattern e) (Replace e) t) text rules"

text \<open>
  The interrupt rules during a read, in the words of the specification. One rule, on the
  current content: what it writes to the stream and what it makes of the content. All the
  rules in declared order: the content at the end and the texts written, in order.
\<close>

definition rule_writes :: "'re regexp_pkg \<Rightarrow> ExpectRule \<Rightarrow> string \<Rightarrow> string list" where
  "rule_writes L rule content =
     (if pattern_matches L (Pattern rule) content \<and> Send rule \<noteq> [] then [Send rule] else [])"

definition rule_rewrite :: "'re regexp_pkg \<Rightarrow> ExpectRule \<Rightarrow> string \<Rightarrow> string" where
  "rule_rewrite L rule content =
     (if pattern_matches L (Pattern rule) content \<and> (Replace rule \<noteq> [] \<or> Send rule \<noteq> [])
      then substitute L (Pattern rule) (Replace rule) content else content)"

fun rules_pass :: "'re regexp_pkg \<Rightarrow> ExpectRule list \<Rightarrow> string \<Rightarrow> string \<times> string list" where
  "rules_pass L [] content = (content, [])"
| "rules_pass L (rule # rules) content =
     (fst (rules_pass L rules (rule_rewrite L rule content)),
      rule_writes L rule content @ snd (rules_pass L rules (rule_rewrite L rule content)))"

text \<open>
  A read cycle, seen from the stream. \<open>chunk_at E k\<close> is what the \<open>k\<close>-th read brings in
  (nothing when it returns an error). Taking a chunk in appends it to the buffer and runs
  the rules on the whole; an empty chunk changes nothing. \<open>after_reads \<dots> b r n\<close> is the
  buffer and the texts written once the \<open>n\<close> reads from the \<open>r\<close>-th on are taken in,
  starting from the buffer \<open>b\<close>.
\<close>

definition chunk_at :: "device_env \<Rightarrow> nat \<Rightarrow> string" where
  "chunk_at E k = (case rd E k of Got data None \<Rightarrow> data | other \<Rightarrow> [])"

definition take_in ::
    "'re regexp_pkg \<Rightarrow> ExpectRule list \<Rightarrow> string \<times> string list \<Rightarrow> string \<Rightarrow> string \<times> string list" where
  "take_in L rules bw data =
     (if data = [] then bw
      else (fst (rules_pass L rules (fst bw @ data)),
            snd bw @ snd (rules_pass L rules (fst bw @ data))))"

definition after_reads ::
    "'re regexp_pkg \<Rightarrow> ExpectRule list \<Rightarrow> device_env \<Rightarrow> string \<Rightarrow> nat \<Rightarrow> nat
       \<Rightarrow> string \<times> string list" where
  "after_reads L rules E b r n = foldl (take_in L rules) (b, []) (map (chunk_at E) [r..<r + n])"

text \<open>
  For a call of \<open>readUntil\<close> on the session \<open>s\<close>, which reads the clock once for the
  deadline and then once at the start of each iteration, numbered from 0:
  \<open>late\<close>, the clock reading of iteration \<open>j\<close> is past the deadline;
  \<open>read_text\<close> and \<open>read_writes\<close>, the buffer and the texts written once \<open>n\<close> reads
  are taken in; \<open>no_prompt_yet\<close>, the read of iteration \<open>j\<close> returns without error and
  its chunk is empty or leaves a buffer that does not match the prompt pattern;
  \<open>goes_on\<close>, iteration \<open>j\<close> neither ends the call nor hangs: it is not late and shows
  no prompt yet; \<open>session_after\<close>, the session once \<open>n\<close> reads have returned
  and the clock has been read \<open>m\<close> times, the \<open>n\<close> reads taken in.
\<close>

definition late :: "device_env \<Rightarrow> Session \<Rightarrow> int \<Rightarrow> nat \<Rightarrow> bool" where
  "late E s timeout j \<longleftrightarrow> now E (nclock s + 1 + j) > now E (nclock s) + timeout"

definition read_text :: "'re regexp_pkg \<Rightarrow> Model \<Rightarrow> device_env \<Rightarrow> Session \<Rightarrow> nat \<Rightarrow> string" where
  "read_text L model E s n = fst (after_reads L (Expect model) E [] (nreads s) n)"

definition read_writes ::
    "'re regexp_pkg \<Rightarrow> Model \<Rightarrow> device_env \<Rightarrow> Session \<Rightarrow> nat \<Rightarrow> string list" where
  "read_writes L model E s n = snd (after_reads L (Expect model) E [] (nreads s) n)"

definition no_prompt_yet ::
    "'re regexp_pkg \<Rightarrow> Model \<Rightarrow> device_env \<Rightarrow> 're \<Rightarrow> Session \<Rightarrow> nat \<Rightarrow> bool" where
  "no_prompt_yet L model E pattern s j \<longleftrightarrow>
     (case rd E (nreads s + j) of
        Got data None \<Rightarrow>
          data = [] \<or> \<not> MatchString L pattern (read_text L model E s (Suc j))
      | other \<Rightarrow> False)"

definition goes_on ::
    "'re regexp_pkg \<Rightarrow> Model \<Rightarrow> device_env \<Rightarrow> 're \<Rightarrow> Session \<Rightarrow> int \<Rightarrow> nat \<Rightarrow> bool" where
  "goes_on L model E pattern s timeout j \<longleftrightarrow>
     \<not> late E s timeout j \<and> no_prompt_yet L model E pattern s j"

definition session_after ::
    "'re regexp_pkg \<Rightarrow> Model \<Rightarrow> device_env \<Rightarrow> Session \<Rightarrow> nat \<Rightarrow> nat \<Rightarrow> Session" where
  "session_after L model E s n m =
     \<lparr> sent = sent s @ read_writes L model E s n, nreads = nreads s + n,
       nclock = nclock s + m, buffer = read_text L model E s n \<rparr>"

text \<open>
  Commands answered in order: from the session \<open>s\<close>, each command of the list is executed
  in its turn and answered without error; \<open>outs\<close> are the texts returned, in the order of
  the commands, and \<open>s'\<close> is the session at the end.
\<close>

fun answered ::
    "'re regexp_pkg \<Rightarrow> device_env \<Rightarrow> Model \<Rightarrow> int \<Rightarrow> Session \<Rightarrow> string list \<Rightarrow> Session
       \<Rightarrow> string list \<Rightarrow> bool" where
  "answered L E m t s [] s' outs = (s' = s \<and> outs = [])"
| "answered L E m t s (cmd # cmds) s' outs =
     (case outs of
        [] \<Rightarrow> False
      | out # rest \<Rightarrow>
          (case Session_Execute L E m t s cmd of
             Some (s1, out', None) \<Rightarrow> out' = out \<and> answered L E m t s1 cmds s' rest
           | other \<Rightarrow> False))"

text \<open>A model is compilable when its prompt pattern and the patterns of all its
  interrupt and secret rules compile.\<close>

definition compiles :: "'re regexp_pkg \<Rightarrow> string \<Rightarrow> bool" where
  "compiles L p = (case Compile L p of Inl msg \<Rightarrow> False | Inr re \<Rightarrow> True)"

definition compilable :: "'re regexp_pkg \<Rightarrow> Model \<Rightarrow> bool" where
  "compilable L m \<longleftrightarrow>
     compiles L (Prompt m) \<and>
     (\<forall>e \<in> set (Expect m). compiles L (Pattern e)) \<and>
     (\<forall>f \<in> set (Secrets m). compiles L (FilterPattern f))"

section \<open>A concrete device, model and remote side\<close>

text \<open>
  Used to evaluate the program: a switch that prints its prompt on connection and after
  the post-login command, answers the inventory command in one read, and answers the
  configuration command in two reads, the first of which ends in a pager prompt. The
  patterns are literal, so that \<open>lit_pkg\<close> applies. \<open>example_host\<close> has three model files:
  one holding this model, one holding a model with the pattern \<open>(\<close>, and one holding
  a model without a body before that model.
\<close>

definition example_device :: Device where
  "example_device = \<lparr> Name = ''sw1'', IP = ''192.0.2.1'', Model = ''eos'', Group = ''lab'',
      Port = 0, Username = ''admin'', Password = ''admin'', Timeout = 0 \<rparr>"

definition example_model :: Model where
  "example_model = \<lparr> Prompt = ''#'', Comment = ''! '',
      Connection = \<lparr> PostLogin = [''terminal length 0''], PreLogout = ''exit'' \<rparr>,
      Expect = [\<lparr> Pattern = ''--More--'', Send = '' '', Replace = [] \<rparr>],
      Secrets = [\<lparr> FilterPattern = ''hunter2'', FilterReplace = ''<removed>'' \<rparr>],
      Comments = [''show inventory''],
      Commands = [''show running-config''] \<rparr>"

definition example_reads :: "nat \<Rightarrow> read_result" where
  "example_reads k =
     (if k < 2 then Got ''sw1#'' None
      else if k = 2 then Got (JoinLines [''show inventory'', ''SN 1'', ''sw1#'']) None
      else if k = 3 then Got (JoinLines [''show running-config'', ''enable --More--'']) None
      else Got (JoinLines [''secret hunter2'', ''sw1#'']) None)"

definition example_env :: device_env where
  "example_env = \<lparr> connect_fault = None, now = (\<lambda>k. int k), rd = example_reads,
                    wr_fault = (\<lambda>k. None) \<rparr>"

definition example_bad_model :: Model where
  "example_bad_model = example_model\<lparr> Expect := [\<lparr> Pattern = ''('', Send = [], Replace = [] \<rparr>] \<rparr>"

definition example_host :: host where
  "example_host = \<lparr>
     loadRouterDB = (\<lambda>path. Inr \<lparr> Devices = [example_device] \<rparr>),
     readFile = (\<lambda>path. if path = ''model.yaml'' then Inr ''good''
                         else if path = ''bad.yaml'' then Inr ''bad''
                         else if path = ''null.yaml'' then Inr ''null''
                         else Inl ''no such file''),
     unmarshal = (\<lambda>data. if data = ''good'' then Inr \<lparr> Models = [(''eos'', Some example_model)] \<rparr>
                         else if data = ''bad'' then Inr \<lparr> Models = [(''eos'', Some example_bad_model)] \<rparr>
                         else if data = ''null''
                           then Inr \<lparr> Models = [(''old'', None), (''eos'', Some example_bad_model)] \<rparr>
                         else Inl ''malformed''),
     ensureDir = None,
     envs = (\<lambda>i. example_env),
     wfaults = (\<lambda>i. None),
     finish = (\<lambda>i. i) \<rparr>"




text \<open>A model with a second capture command; a remote side that, from the first
  capture command on, sends a byte that is not the prompt every twenty seconds; and a device
  that names a model no model file has.\<close>

definition example_model2 :: Model where
  "example_model2 = example_model\<lparr> Commands := [''show running-config'', ''show version''] \<rparr>"

definition stalling_env :: device_env where
  "stalling_env = \<lparr> connect_fault = None, now = (\<lambda>k. int k * 20000000000),
      rd = (\<lambda>k. if k < 3 then example_reads k else Got ''x'' None),
      wr_fault = (\<lambda>k. None) \<rparr>"

definition ghost_device :: Device where
  "ghost_device = example_device\<lparr> Name := ''sw0'', Model := ''ghost'' \<rparr>"

text \<open>
  A model with two annotation commands and two capture commands, and a rule with neither
  send-text nor replacement-text, which only the residual pass applies; and a remote side
  that answers each command in one read.
\<close>

definition example_model3 :: Model where
  "example_model3 = \<lparr> Prompt = ''#'', Comment = ''! '',
      Connection = \<lparr> PostLogin = [], PreLogout = [] \<rparr>,
      Expect = [\<lparr> Pattern = ''--More--'', Send = '' '', Replace = [] \<rparr>,
                \<lparr> Pattern = ''~'', Send = [], Replace = [] \<rparr>],
      Secrets = [\<lparr> FilterPattern = ''hunter2'', FilterReplace = ''<removed>'' \<rparr>],
      Comments = [''show version'', ''show inventory''],
      Commands = [''show running-config'', ''show vlan''] \<rparr>"

definition example_reads3 :: "nat \<Rightarrow> read_result" where
  "example_reads3 k =
     (if k = 0 then Got ''sw1#'' None
      else if k = 1 then Got (JoinLines [''show version'', ''EOS 4~'', ''sw1#'']) None
      else if k = 2 then Got (JoinLines [''show inventory'', ''SN 1'', ''sw1#'']) None
      else if k = 3
        then Got (JoinLines [''show running-config'', ''enable secret hunter2'', ''sw1#'']) None
      else Got (JoinLines [''show vlan'', ''vlan 10'', ''sw1#'']) None)"

definition example_env3 :: device_env where
  "example_env3 = \<lparr> connect_fault = None, now = (\<lambda>k. int k), rd = example_reads3,
                     wr_fault = (\<lambda>k. None) \<rparr>"

section \<open>Lines of a text\<close>

lemma SplitLines_ne: "SplitLines s \<noteq> []"
  by (induction s) (auto split: list.splits)

lemma Join_Split: "JoinLines (SplitLines s) = s"
proof (induction s)
  case Nil show ?case by simp
next
  case (Cons c cs)
  obtain l ls where e: "SplitLines cs = l # ls"
    using SplitLines_ne[of cs] by (cases "SplitLines cs") auto
  show ?case using Cons e by (cases ls) auto
qed

lemma Split_no_LF: "l \<in> set (SplitLines s) \<Longrightarrow> LF \<notin> set l"
  by (induction s arbitrary: l) (auto split: list.splits if_splits)

lemma Split_append_noLF: "LF \<notin> set l \<Longrightarrow> SplitLines (l @ LF # s) = l # SplitLines s"
  by (induction l) auto

lemma Split_noLF: "LF \<notin> set l \<Longrightarrow> SplitLines l = [l]"
  by (induction l) auto

lemma Split_Join:
  "ls \<noteq> [] \<Longrightarrow> \<forall>l \<in> set ls. LF \<notin> set l \<Longrightarrow> SplitLines (JoinLines ls) = ls"
proof (induction ls rule: JoinLines.induct)
  case 1 then show ?case by simp
next
  case (2 l) then show ?case by (simp add: Split_noLF)
next
  case (3 l m ls) then show ?case by (simp add: Split_append_noLF)
qed

lemma commentAllLines_lines:
  assumes "LF \<notin> set P"
  shows "SplitLines (commentAllLines T P) =
         map (\<lambda>line. if line \<noteq> [] then P @ line else line) (SplitLines T)"
proof (cases "T = [] \<or> P = []")
  case True
  then show ?thesis by (auto simp: commentAllLines_def intro!: map_idI[symmetric])
next
  case False
  have "\<forall>l \<in> set (map (\<lambda>line. if line \<noteq> [] then P @ line else line) (SplitLines T)).
          LF \<notin> set l"
    using assms Split_no_LF by auto
  then show ?thesis using False SplitLines_ne[of T]
    by (simp add: commentAllLines_def Split_Join)
qed

section \<open>Annotating every line\<close>

text \<open>
  C8, as stated, at a concrete input: with the prefix \<open>#\<close> followed by a line
  terminator, annotating the one-line text \<open>a\<close> gives a text of two lines.
\<close>

theorem commentAllLines_newline_prefix_adds_line:
  "length (SplitLines (commentAllLines ''a'' [CHR ''#'', LF])) = 2 \<and>
   length (SplitLines ''a'') = 1"
  by (simp add: commentAllLines_def LF_def)

text \<open>
  C8 (amended): for every text \<open>T\<close> and every prefix \<open>P\<close> that contains no line
  terminator, \<open>commentAllLines\<close> keeps the number of lines of \<open>T\<close>; line by line, a
  non-empty line becomes \<open>P\<close> followed by that line and an empty line stays empty; and an
  empty text, or an empty prefix, gives the input back unchanged.
\<close>

theorem commentAllLines_keeps_lines:
  assumes "LF \<notin> set P"
  shows "length (SplitLines (commentAllLines T P)) = length (SplitLines T) \<and>
         (\<forall>i < length (SplitLines T).
            SplitLines (commentAllLines T P) ! i =
              (if SplitLines T ! i \<noteq> [] then P @ SplitLines T ! i else [])) \<and>
         commentAllLines [] P = [] \<and> commentAllLines T [] = T"
  using commentAllLines_lines[OF assms, of T] by (simp add: commentAllLines_def)

theorem commentAllLines_keeps_lines_witness:
  "LF \<notin> set ''! '' \<and>
   commentAllLines [CHR ''a'', LF, LF, CHR ''b''] ''! '' =
     [CHR ''!'', CHR '' '', CHR ''a'', LF, LF, CHR ''!'', CHR '' '', CHR ''b''] \<and>
   length (SplitLines (commentAllLines [CHR ''a'', LF, LF, CHR ''b''] ''! '')) = 3 \<and>
   SplitLines (commentAllLines [CHR ''a'', LF, LF, CHR ''b''] ''! '') ! 2 = ''! b''"
proof -
  have h: "LF \<notin> set ''! ''" by (simp add: LF_def)
  have "length (SplitLines [CHR ''a'', LF, LF, CHR ''b'']) = 3" by (simp add: LF_def)
  then show ?thesis
    using h commentAllLines_keeps_lines[OF h, of "[CHR ''a'', LF, LF, CHR ''b'']"]
    by (simp add: commentAllLines_def LF_def)
qed

section \<open>The residual interrupt-replacement pass\<close>

text \<open>
  C1, as stated, at a concrete input: the rule with pattern \<open>a\<close>, no send-text and no
  replacement-text is not skipped; on the text \<open>abc\<close> the pass returns \<open>bc\<close>.
\<close>

theorem applyExpectReplacements_bare_rule_deletes:
  "Send \<lparr>Pattern = ''a'', Send = [], Replace = []\<rparr> = [] \<and>
   Replace \<lparr>Pattern = ''a'', Send = [], Replace = []\<rparr> = [] \<and>
   applyExpectReplacements lit_pkg ''abc'' [\<lparr>Pattern = ''a'', Send = [], Replace = []\<rparr>]
     = Inr ''bc''"
  by (simp add: ExpectRule_Regex_def lit_pkg_def lit_Compile_def lit_meta_def
        lit_ReplaceAllString_def)

text \<open>
  C1 (amended): in \<open>applyExpectReplacements\<close> a rule that has send-text and no
  replacement-text is skipped, so that the pass restricted to such a rule returns the text
  unchanged; every other rule whose pattern compiles, a rule with neither send-text nor
  replacement-text included, has all matches of its pattern replaced by its replacement
  text, and the following rules see the rewritten text.
\<close>

theorem applyExpectReplacements_skips_send_only:
  "(Replace rule = [] \<and> Send rule \<noteq> [] \<longrightarrow>
      applyExpectReplacements L text (rule # rules) = applyExpectReplacements L text rules \<and>
      applyExpectReplacements L text [rule] = Inr text) \<and>
   (\<not> (Replace rule = [] \<and> Send rule \<noteq> []) \<longrightarrow>
      (\<forall>re. Compile L (Pattern rule) = Inr re \<longrightarrow>
         applyExpectReplacements L text (rule # rules) =
           applyExpectReplacements L (ReplaceAllString L re text (Replace rule)) rules \<and>
         applyExpectReplacements L text [rule] =
           Inr (ReplaceAllString L re text (Replace rule))))"
  by (simp add: ExpectRule_Regex_def)

theorem applyExpectReplacements_skips_send_only_witness:
  "applyExpectReplacements lit_pkg ''a--More--b''
      [\<lparr>Pattern = ''--More--'', Send = '' '', Replace = []\<rparr>] = Inr ''a--More--b'' \<and>
   applyExpectReplacements lit_pkg ''a--More--b''
      [\<lparr>Pattern = ''--More--'', Send = [], Replace = []\<rparr>] = Inr ''ab'' \<and>
   applyExpectReplacements lit_pkg ''a--More--b''
      [\<lparr>Pattern = ''--More--'', Send = '' '', Replace = ''X''\<rparr>] = Inr ''aXb''"
proof -
  have c: "Compile lit_pkg ''--More--'' = Inr ''--More--''"
    by (simp add: lit_pkg_def lit_Compile_def lit_meta_def)
  have r1: "ReplaceAllString lit_pkg ''--More--'' ''a--More--b'' [] = ''ab''"
    by (simp add: lit_pkg_def lit_ReplaceAllString_def)
  have r2: "ReplaceAllString lit_pkg ''--More--'' ''a--More--b'' ''X'' = ''aXb''"
    by (simp add: lit_pkg_def lit_ReplaceAllString_def)
  show ?thesis
    using applyExpectReplacements_skips_send_only
            [of "\<lparr>Pattern = ''--More--'', Send = '' '', Replace = []\<rparr>" lit_pkg "''a--More--b''" "[]"]
          applyExpectReplacements_skips_send_only
            [of "\<lparr>Pattern = ''--More--'', Send = [], Replace = []\<rparr>" lit_pkg "''a--More--b''" "[]"]
          applyExpectReplacements_skips_send_only
            [of "\<lparr>Pattern = ''--More--'', Send = '' '', Replace = ''X''\<rparr>" lit_pkg "''a--More--b''" "[]"]
          c r1 r2
    by simp
qed

section \<open>Annotating the boundary lines\<close>

lemma nonEmptyIdx_Cons:
  "nonEmptyIdx (l # ls) = (if l \<noteq> [] then [0] else []) @ map Suc (nonEmptyIdx ls)"
proof -
  have "[0..<length (l # ls)] = 0 # map Suc [0..<length ls]"
    by (simp add: upt_conv_Cons map_Suc_upt del: upt_Suc)
  then show ?thesis
    by (simp add: nonEmptyIdx_def filter_map comp_def del: upt_Suc)
qed

lemma firstNonEmpty_char:
  "firstNonEmpty ls k = (case nonEmptyIdx ls of [] \<Rightarrow> None | i # rest \<Rightarrow> Some (k + i))"
proof (induction ls arbitrary: k)
  case Nil show ?case by (simp add: nonEmptyIdx_def)
next
  case (Cons l ls)
  show ?case using Cons[of "Suc k"]
    by (simp add: nonEmptyIdx_Cons split: list.splits)
qed

lemma lastNonEmpty_char:
  "n \<le> length ls \<Longrightarrow> lastNonEmpty ls n =
     (case filter (\<lambda>i. ls ! i \<noteq> []) [0..<n] of
        [] \<Rightarrow> None | i # rest \<Rightarrow> Some (last (i # rest)))"
proof (induction n)
  case 0 show ?case by simp
next
  case (Suc n)
  then show ?case by (auto split: list.splits)
qed

lemma distinct_hd_last: "distinct (a # b # xs) \<Longrightarrow> a \<noteq> last (a # b # xs)"
proof -
  assume d: "distinct (a # b # xs)"
  have "last (a # b # xs) = last (b # xs)" by simp
  moreover have "last (b # xs) \<in> set (b # xs)" by (rule last_in_set) simp
  ultimately show ?thesis using d by auto
qed

lemma nonEmptyIdx_bound: "i \<in> set (nonEmptyIdx ls) \<Longrightarrow> i < length ls \<and> ls ! i \<noteq> []"
  by (simp add: nonEmptyIdx_def)

lemma boundaryIdx_cases:
  "(nonEmptyIdx ls = [] \<longrightarrow> boundaryIdx ls = {}) \<and>
   (length (nonEmptyIdx ls) = 1 \<longrightarrow> boundaryIdx ls = {hd (nonEmptyIdx ls)}) \<and>
   (2 \<le> length (nonEmptyIdx ls) \<longrightarrow>
      boundaryIdx ls = {hd (nonEmptyIdx ls), last (nonEmptyIdx ls)} \<and>
      hd (nonEmptyIdx ls) \<noteq> last (nonEmptyIdx ls))"
proof (cases "nonEmptyIdx ls")
  case Nil then show ?thesis by (simp add: boundaryIdx_def)
next
  case outer: (Cons a xs)
  show ?thesis
  proof (cases xs)
    case Nil then show ?thesis using outer by (simp add: boundaryIdx_def)
  next
    case (Cons b ys)
    have "distinct (a # b # ys)" using outer Cons
      by (metis distinct_filter distinct_upt nonEmptyIdx_def)
    then have "a \<noteq> last (a # b # ys)" by (rule distinct_hd_last)
    then show ?thesis using Cons outer by (simp add: boundaryIdx_def)
  qed
qed

lemma commentFirstLastLines_char:
  assumes "P \<noteq> []"
  shows "commentFirstLastLines T P =
     Some (JoinLines (map (\<lambda>i. if i \<in> boundaryIdx (SplitLines T) then P @ SplitLines T ! i
                                else SplitLines T ! i) [0..<length (SplitLines T)]))"
proof (cases "nonEmptyIdx (SplitLines T)")
  case Nil
  have m: "map (\<lambda>i. SplitLines T ! i) [0..<length (SplitLines T)] = SplitLines T"
    by (rule map_nth)
  have "commentFirstLastLines T P = Some T"
    using Nil by (simp add: commentFirstLastLines_def firstNonEmpty_char Let_def)
  then show ?thesis using Nil m by (simp add: boundaryIdx_def Join_Split)
next
  case (Cons a xs)
  let ?ls = "SplitLines T"
  define lst where "lst = last (a # xs)"
  have T: "T \<noteq> []" using Cons by (auto simp: nonEmptyIdx_def)
  have a: "a < length ?ls" using nonEmptyIdx_bound[of a ?ls] Cons by simp
  have "lst \<in> set (nonEmptyIdx ?ls)"
    unfolding lst_def Cons by (rule last_in_set) simp
  then have lb: "lst < length ?ls" using nonEmptyIdx_bound by blast
  have f: "firstNonEmpty ?ls 0 = Some a" using Cons by (simp add: firstNonEmpty_char)
  have l: "lastNonEmpty ?ls (length ?ls) = Some lst"
    using Cons lastNonEmpty_char[of "length ?ls" ?ls] by (simp add: nonEmptyIdx_def lst_def)
  have B: "boundaryIdx ?ls = {a, lst}" using Cons by (simp add: boundaryIdx_def lst_def)
  have upd: "(if lst \<noteq> a
              then (?ls[a := P @ ?ls ! a])[lst := P @ (?ls[a := P @ ?ls ! a]) ! lst]
              else ?ls[a := P @ ?ls ! a])
       = map (\<lambda>i. if i \<in> {a, lst} then P @ ?ls ! i else ?ls ! i) [0..<length ?ls]"
    using a lb by (intro nth_equalityI) auto
  have "commentFirstLastLines T P =
      Some (JoinLines (if lst \<noteq> a
              then (?ls[a := P @ ?ls ! a])[lst := P @ (?ls[a := P @ ?ls ! a]) ! lst]
              else ?ls[a := P @ ?ls ! a]))"
    using T assms f l SplitLines_ne[of T]
    by (simp add: commentFirstLastLines_def Let_def)
  then show ?thesis unfolding upd B .
qed

lemma commentFirstLastLines_no_lines:
  "nonEmptyIdx (SplitLines T) = [] \<Longrightarrow> commentFirstLastLines T P = Some T"
  by (simp add: commentFirstLastLines_def firstNonEmpty_char Let_def)

lemma commentFirstLastLines_returns: "\<exists>r. commentFirstLastLines T P = Some r"
proof (cases "P = []")
  case True then show ?thesis by (simp add: commentFirstLastLines_def)
next
  case False then show ?thesis using commentFirstLastLines_char by blast
qed

text \<open>
  C2: for every text \<open>T\<close> and every non-empty prefix \<open>P\<close>, \<open>commentFirstLastLines\<close>
  returns the lines of \<open>T\<close> joined again, with \<open>P\<close> put once in front of the lines at
  the boundary positions and every other line as it was. The boundary positions are none
  when \<open>T\<close> has no non-empty line (the result is then \<open>T\<close> itself), exactly one when
  \<open>T\<close> has exactly one non-empty line, and exactly two, the first and the last non-empty
  line, when \<open>T\<close> has two or more.
\<close>

theorem commentFirstLastLines_boundary:
  assumes "P \<noteq> []"
  shows "commentFirstLastLines T P =
           Some (JoinLines (map (\<lambda>i. if i \<in> boundaryIdx (SplitLines T)
                                       then P @ SplitLines T ! i else SplitLines T ! i)
                                [0..<length (SplitLines T)])) \<and>
         (length (nonEmptyIdx (SplitLines T)) = 0 \<longrightarrow>
            card (boundaryIdx (SplitLines T)) = 0 \<and> commentFirstLastLines T P = Some T) \<and>
         (length (nonEmptyIdx (SplitLines T)) = 1 \<longrightarrow>
            card (boundaryIdx (SplitLines T)) = 1 \<and>
            boundaryIdx (SplitLines T) = {hd (nonEmptyIdx (SplitLines T))}) \<and>
         (2 \<le> length (nonEmptyIdx (SplitLines T)) \<longrightarrow>
            card (boundaryIdx (SplitLines T)) = 2 \<and>
            boundaryIdx (SplitLines T) =
              {hd (nonEmptyIdx (SplitLines T)), last (nonEmptyIdx (SplitLines T))})"
proof -
  have c0: "length (nonEmptyIdx (SplitLines T)) = 0 \<longrightarrow>
            card (boundaryIdx (SplitLines T)) = 0 \<and> commentFirstLastLines T P = Some T"
    using boundaryIdx_cases[of "SplitLines T"] commentFirstLastLines_no_lines[of T P] by simp
  have c1: "length (nonEmptyIdx (SplitLines T)) = 1 \<longrightarrow>
            card (boundaryIdx (SplitLines T)) = 1 \<and>
            boundaryIdx (SplitLines T) = {hd (nonEmptyIdx (SplitLines T))}"
    using boundaryIdx_cases[of "SplitLines T"] by simp
  have c2: "2 \<le> length (nonEmptyIdx (SplitLines T)) \<longrightarrow>
            card (boundaryIdx (SplitLines T)) = 2 \<and>
            boundaryIdx (SplitLines T) =
              {hd (nonEmptyIdx (SplitLines T)), last (nonEmptyIdx (SplitLines T))}"
    using boundaryIdx_cases[of "SplitLines T"] by simp
  show ?thesis using commentFirstLastLines_char[OF assms, of T] c0 c1 c2 by blast
qed

theorem commentFirstLastLines_boundary_witness:
  "''! '' \<noteq> [] \<and>
   nonEmptyIdx (SplitLines [CHR ''a'', LF, LF, CHR ''b'', LF, CHR ''c'', LF]) = [0, 2, 3] \<and>
   card (boundaryIdx (SplitLines [CHR ''a'', LF, LF, CHR ''b'', LF, CHR ''c'', LF])) = 2 \<and>
   commentFirstLastLines [CHR ''a'', LF, LF, CHR ''b'', LF, CHR ''c'', LF] ''! '' =
     Some [CHR ''!'', CHR '' '', CHR ''a'', LF, LF, CHR ''b'', LF,
           CHR ''!'', CHR '' '', CHR ''c'', LF]"
proof -
  have h: "''! '' \<noteq> []" by simp
  have n: "nonEmptyIdx (SplitLines [CHR ''a'', LF, LF, CHR ''b'', LF, CHR ''c'', LF]) = [0, 2, 3]"
    by (simp add: nonEmptyIdx_def LF_def upt_conv_Cons)
  have s: "SplitLines [CHR ''a'', LF, LF, CHR ''b'', LF, CHR ''c'', LF] = [''a'', [], ''b'', ''c'', []]"
    by (simp add: LF_def)
  have b: "boundaryIdx [''a'', [], ''b'', ''c'', []] = {0, 3}"
    using n[unfolded s] by (simp add: boundaryIdx_def)
  note th = commentFirstLastLines_boundary
              [OF h, of "[CHR ''a'', LF, LF, CHR ''b'', LF, CHR ''c'', LF]", unfolded s b]
  show ?thesis
    unfolding s b using h n[unfolded s] th by (simp add: upt_conv_Cons LF_def)
qed

section \<open>Interrupt rules during a read\<close>

lemma processExpectRules_pass:
  "processExpectRules L E rules s content handled =
     (s\<lparr>sent := sent s @ snd (rules_pass L rules content)\<rparr>,
      fst (rules_pass L rules content),
      snd (snd (processExpectRules L E rules s content handled)))"
proof (induction rules arbitrary: s content handled)
  case Nil
  show ?case by simp
next
  case (Cons rule rules)
  show ?case
  proof (cases "Compile L (Pattern rule)")
    case (Inl msg)
    then have n: "rule_rewrite L rule content = content" "rule_writes L rule content = []"
      by (simp_all add: rule_rewrite_def rule_writes_def pattern_matches_def)
    have "processExpectRules L E (rule # rules) s content handled =
            processExpectRules L E rules s content handled"
      using Inl by (simp add: ExpectRule_Regex_def)
    then show ?thesis using Cons[of s content handled] n by simp
  next
    case (Inr re)
    show ?thesis
    proof (cases "MatchString L re content")
      case False
      then have n: "rule_rewrite L rule content = content" "rule_writes L rule content = []"
        using Inr by (simp_all add: rule_rewrite_def rule_writes_def pattern_matches_def)
      have "processExpectRules L E (rule # rules) s content handled =
              processExpectRules L E rules s content handled"
        using Inr False by (simp add: ExpectRule_Regex_def)
      then show ?thesis using Cons[of s content handled] n by simp
    next
      case True
      show ?thesis
      proof (cases "Send rule = []")
        case nosend: True
        show ?thesis
        proof (cases "Replace rule = []")
          case True
          have n: "rule_rewrite L rule content = content" "rule_writes L rule content = []"
            using nosend True by (simp_all add: rule_rewrite_def rule_writes_def)
          have "processExpectRules L E (rule # rules) s content handled =
                  processExpectRules L E rules s content handled"
            using Inr \<open>MatchString L re content\<close> nosend True
            by (simp add: ExpectRule_Regex_def)
          then show ?thesis using Cons[of s content handled] n by simp
        next
          case False
          have n: "rule_rewrite L rule content = ReplaceAllString L re content (Replace rule)"
                  "rule_writes L rule content = []"
            using Inr \<open>MatchString L re content\<close> nosend False
            by (simp_all add: rule_rewrite_def rule_writes_def pattern_matches_def substitute_def)
          have "processExpectRules L E (rule # rules) s content handled =
                  processExpectRules L E rules s (ReplaceAllString L re content (Replace rule)) True"
            using Inr \<open>MatchString L re content\<close> nosend False
            by (simp add: ExpectRule_Regex_def)
          then show ?thesis
            using Cons[of s "ReplaceAllString L re content (Replace rule)" True] n by simp
        qed
      next
        case send: False
        have n: "rule_rewrite L rule content = ReplaceAllString L re content (Replace rule)"
                "rule_writes L rule content = [Send rule]"
          using Inr \<open>MatchString L re content\<close> send
          by (simp_all add: rule_rewrite_def rule_writes_def pattern_matches_def substitute_def)
        have "processExpectRules L E (rule # rules) s content handled =
                processExpectRules L E rules (s\<lparr>sent := sent s @ [Send rule]\<rparr>)
                  (ReplaceAllString L re content (Replace rule)) True"
          using Inr \<open>MatchString L re content\<close> send
          by (simp add: ExpectRule_Regex_def Session_Send_def)
        then show ?thesis
          using Cons[of "s\<lparr>sent := sent s @ [Send rule]\<rparr>"
                        "ReplaceAllString L re content (Replace rule)" True] n
          by simp
      qed
    qed
  qed
qed

lemma processExpectRules_unhandled:
  "processExpectRules L E rules s content handled = (s', content', handled') \<Longrightarrow>
     \<not> handled' \<Longrightarrow> content' = content"
proof (induction rules arbitrary: s content handled)
  case Nil
  then show ?case by simp
next
  case (Cons rule rules)
  have mono: "\<And>s c s' c' h'. processExpectRules L E rules s c True = (s', c', h') \<Longrightarrow> h'"
  proof -
    fix s c s' c' h'
    show "processExpectRules L E rules s c True = (s', c', h') \<Longrightarrow> h'"
    proof (induction rules arbitrary: s c)
      case Nil then show ?case by simp
    next
      case (Cons r rs)
      then show ?case
        by (cases "Compile L (Pattern r)")
           (auto simp: ExpectRule_Regex_def Let_def split: if_splits)
    qed
  qed
  show ?case
  proof (cases "Compile L (Pattern rule)")
    case (Inl msg)
    then have "processExpectRules L E rules s content handled = (s', content', handled')"
      using Cons.prems(1) by (simp add: ExpectRule_Regex_def)
    from Cons.IH[OF this Cons.prems(2)] show ?thesis .
  next
    case (Inr re)
    show ?thesis
    proof (cases "MatchString L re content \<and> (Replace rule \<noteq> [] \<or> Send rule \<noteq> [])")
      case True
      then obtain s1 where
        "processExpectRules L E rules s1 (ReplaceAllString L re content (Replace rule)) True
           = (s', content', handled')"
        using Cons.prems(1) Inr by (auto simp: ExpectRule_Regex_def Let_def split: if_splits)
      from mono[OF this] Cons.prems(2) show ?thesis by simp
    next
      case False
      then have "processExpectRules L E rules s content handled = (s', content', handled')"
        using Cons.prems(1) Inr by (auto simp: ExpectRule_Regex_def Let_def split: if_splits)
      from Cons.IH[OF this Cons.prems(2)] show ?thesis .
    qed
  qed
qed

lemma absorb_pass:
  "absorb L E model s data =
     s\<lparr>sent := sent s @ snd (rules_pass L (Expect model) (buffer s @ data)),
       buffer := fst (rules_pass L (Expect model) (buffer s @ data))\<rparr>"
proof -
  let ?s2 = "s\<lparr>buffer := buffer s @ data\<rparr>"
  obtain s3 content handled where
    p: "processExpectRules L E (Expect model) ?s2 (buffer ?s2) False = (s3, content, handled)"
    by (metis prod_cases3)
  have q: "s3 = ?s2\<lparr>sent := sent ?s2 @ snd (rules_pass L (Expect model) (buffer ?s2))\<rparr>"
          "content = fst (rules_pass L (Expect model) (buffer ?s2))"
    using processExpectRules_pass[of L E "Expect model" ?s2 "buffer ?s2" False] p by simp_all
  show ?thesis
  proof (cases handled)
    case True
    then show ?thesis using p q by (simp add: absorb_def Let_def)
  next
    case False
    from processExpectRules_unhandled[OF p] False have "content = buffer ?s2" by simp
    then show ?thesis using p q False by (simp add: absorb_def Let_def)
  qed
qed

section \<open>The loop of a read\<close>

lemma readUntil_loop_Done:
  "readUntil_step L E model pattern deadline s = Done r \<Longrightarrow>
     readUntil_loop L E model pattern deadline s = Some r"
  by (subst readUntil_loop.simps) simp

lemma readUntil_loop_Continue:
  "readUntil_step L E model pattern deadline s = Continue s' \<Longrightarrow>
     readUntil_loop L E model pattern deadline s = readUntil_loop L E model pattern deadline s'"
  by (subst readUntil_loop.simps) simp

lemma readUntil_loop_Stuck:
  "readUntil_step L E model pattern deadline s = Stuck \<Longrightarrow>
     readUntil_loop L E model pattern deadline s = None"
  by (subst readUntil_loop.simps) simp

lemma after_reads_Suc:
  "after_reads L rules E b r (Suc n) =
     take_in L rules (after_reads L rules E b r n) (chunk_at E (r + n))"
  by (simp add: after_reads_def)

lemma read_Suc_empty:
  assumes "chunk_at E (nreads s + n) = []"
  shows "read_text L model E s (Suc n) = read_text L model E s n"
    and "read_writes L model E s (Suc n) = read_writes L model E s n"
  using assms by (simp_all add: read_text_def read_writes_def after_reads_Suc take_in_def)

lemma read_Suc_chunk:
  assumes "chunk_at E (nreads s + n) = data" and "data \<noteq> []"
  shows "read_text L model E s (Suc n) =
           fst (rules_pass L (Expect model) (read_text L model E s n @ data))"
    and "read_writes L model E s (Suc n) =
           read_writes L model E s n @
           snd (rules_pass L (Expect model) (read_text L model E s n @ data))"
  using assms by (simp_all add: read_text_def read_writes_def after_reads_Suc take_in_def)

lemma readUntil_entry:
  "readUntil L E model timeout pattern s =
     readUntil_loop L E model pattern (now E (nclock s) + timeout) (session_after L model E s 0 1)"
proof -
  have "s\<lparr>buffer := [], nclock := Suc (nclock s)\<rparr> = session_after L model E s 0 1"
    by (simp add: session_after_def read_text_def read_writes_def after_reads_def)
  then show ?thesis by (simp add: readUntil_def Let_def)
qed


lemma step_blocked:
  assumes "\<not> late E s timeout n" and "rd E (nreads s + n) = Blocked"
  shows "readUntil_step L E model pattern (now E (nclock s) + timeout)
           (session_after L model E s n (Suc n)) = Stuck"
  using assms by (simp add: readUntil_step_def session_after_def late_def Let_def)



lemma step_empty:
  assumes "\<not> late E s timeout n" and "rd E (nreads s + n) = Got [] None"
  shows "readUntil_step L E model pattern (now E (nclock s) + timeout)
           (session_after L model E s n (Suc n)) =
         Continue (session_after L model E s (Suc n) (Suc (Suc n)))"
proof -
  have c: "chunk_at E (nreads s + n) = []" using assms(2) by (simp add: chunk_at_def)
  show ?thesis using assms read_Suc_empty[OF c, of L model]
    by (simp add: readUntil_step_def session_after_def late_def Let_def)
qed

lemma step_chunk:
  assumes "\<not> late E s timeout n" and "rd E (nreads s + n) = Got data None" and "data \<noteq> []"
  shows "readUntil_step L E model pattern (now E (nclock s) + timeout)
           (session_after L model E s n (Suc n)) =
         (if MatchString L pattern (read_text L model E s (Suc n))
          then Done (session_after L model E s (Suc n) (Suc (Suc n)),
                     read_text L model E s (Suc n), None)
          else Continue (session_after L model E s (Suc n) (Suc (Suc n))))"
proof -
  have c: "chunk_at E (nreads s + n) = data" using assms(2) by (simp add: chunk_at_def)
  note r = read_Suc_chunk[OF c assms(3), of L model]
  let ?S = "session_after L model E s n (Suc n)"
  let ?s1 = "?S\<lparr>nclock := Suc (nclock ?S), nreads := Suc (nreads ?S)\<rparr>"
  have a: "absorb L E model ?s1 data = session_after L model E s (Suc n) (Suc (Suc n))"
    unfolding absorb_pass by (simp add: session_after_def r)
  have b: "buffer (session_after L model E s (Suc n) (Suc (Suc n))) =
             read_text L model E s (Suc n)"
    by (simp add: session_after_def)
  have l: "\<not> now E (nclock ?S) > now E (nclock s) + timeout"
    using assms(1) by (simp add: session_after_def late_def)
  have g: "rd E (nreads (?S\<lparr>nclock := Suc (nclock ?S)\<rparr>)) = Got data None"
    using assms(2) by (simp add: session_after_def)
  show ?thesis
    unfolding readUntil_step_def Let_def using l g assms(3) a b by simp
qed

lemma step_goes_on:
  assumes "goes_on L model E pattern s timeout n"
  shows "readUntil_step L E model pattern (now E (nclock s) + timeout)
           (session_after L model E s n (Suc n)) =
         Continue (session_after L model E s (Suc n) (Suc (Suc n)))"
proof -
  from assms have l: "\<not> late E s timeout n" by (simp add: goes_on_def)
  from assms obtain data where d: "rd E (nreads s + n) = Got data None"
      "data = [] \<or> \<not> MatchString L pattern (read_text L model E s (Suc n))"
    by (auto simp: goes_on_def no_prompt_yet_def split: read_result.splits option.splits)
  show ?thesis
  proof (cases "data = []")
    case True
    then show ?thesis
      using step_empty[OF l, where L = L and model = model and pattern = pattern] d(1) by simp
  next
    case False
    then show ?thesis
      using step_chunk[OF l d(1) False, where L = L and model = model and pattern = pattern]
            d(2) by simp
  qed
qed

lemma readUntil_run:
  assumes "\<forall>j < n. goes_on L model E pattern s timeout j"
  shows "readUntil L E model timeout pattern s =
         readUntil_loop L E model pattern (now E (nclock s) + timeout)
           (session_after L model E s n (Suc n))"
  using assms
proof (induction n)
  case 0
  show ?case using readUntil_entry by simp
next
  case (Suc n)
  then have "goes_on L model E pattern s timeout n" by simp
  from readUntil_loop_Continue[OF step_goes_on[OF this]] Suc show ?case by simp
qed

lemma readUntil_blocked:
  assumes "\<forall>j < n. goes_on L model E pattern s timeout j"
    and "\<not> late E s timeout n" and "rd E (nreads s + n) = Blocked"
  shows "readUntil L E model timeout pattern s = None"
  using readUntil_run[OF assms(1)] readUntil_loop_Stuck[OF step_blocked[OF assms(2,3)]]
  by simp

text \<open>
  C3: the pass of \<open>processExpectRules\<close> over a content, no rule having been handled
  before, is the pass of the specification: every rule in declared order, on the content
  as the rules before it left it; a rule whose pattern matches and that has send-text
  writes that text to the stream; a rule whose pattern matches and that has
  replacement-text or send-text has all matches of its pattern replaced by its
  replacement text. And \<open>readUntil\<close> makes this pass on every chunk: when a read returns a
  non-empty chunk without error, the buffer after it is the result of the pass on the
  buffer before it followed by the chunk, and the texts the pass writes follow those
  written before. As long as the iterations before the \<open>n\<close>-th neither end the call nor
  hang, the call is its loop on the session in which \<open>n\<close> chunks are taken in; and when
  the \<open>n\<close>-th iteration is in time and its chunk makes the buffer after the pass match the
  prompt pattern, the call returns that buffer without error.
\<close>

theorem readUntil_applies_rules_to_every_chunk:
  "fst (processExpectRules L E rules q content False) =
     q\<lparr>sent := sent q @ snd (rules_pass L rules content)\<rparr> \<and>
   fst (snd (processExpectRules L E rules q content False)) = fst (rules_pass L rules content) \<and>
   (rd E (nreads s + n) = Got data None \<longrightarrow> data \<noteq> [] \<longrightarrow>
      read_text L model E s (Suc n) =
        fst (rules_pass L (Expect model) (read_text L model E s n @ data)) \<and>
      read_writes L model E s (Suc n) =
        read_writes L model E s n @
        snd (rules_pass L (Expect model) (read_text L model E s n @ data))) \<and>
   ((\<forall>j < n. goes_on L model E pattern s timeout j) \<longrightarrow>
      readUntil L E model timeout pattern s =
        readUntil_loop L E model pattern (now E (nclock s) + timeout)
          (session_after L model E s n (Suc n)) \<and>
      (\<not> late E s timeout n \<longrightarrow> rd E (nreads s + n) = Got data None \<longrightarrow> data \<noteq> [] \<longrightarrow>
         MatchString L pattern (read_text L model E s (Suc n)) \<longrightarrow>
           readUntil L E model timeout pattern s =
             Some (session_after L model E s (Suc n) (Suc (Suc n)),
                   read_text L model E s (Suc n), None)))"
proof -
  have A: "fst (processExpectRules L E rules q content False) =
             q\<lparr>sent := sent q @ snd (rules_pass L rules content)\<rparr>"
    by (subst processExpectRules_pass) simp
  have B: "fst (snd (processExpectRules L E rules q content False)) =
             fst (rules_pass L rules content)"
    by (subst processExpectRules_pass) simp
  have C: "rd E (nreads s + n) = Got data None \<longrightarrow> data \<noteq> [] \<longrightarrow>
      read_text L model E s (Suc n) =
        fst (rules_pass L (Expect model) (read_text L model E s n @ data)) \<and>
      read_writes L model E s (Suc n) =
        read_writes L model E s n @
        snd (rules_pass L (Expect model) (read_text L model E s n @ data))"
  proof (intro impI)
    assume g: "rd E (nreads s + n) = Got data None" and d: "data \<noteq> []"
    have c: "chunk_at E (nreads s + n) = data" using g by (simp add: chunk_at_def)
    show "read_text L model E s (Suc n) =
        fst (rules_pass L (Expect model) (read_text L model E s n @ data)) \<and>
      read_writes L model E s (Suc n) =
        read_writes L model E s n @
        snd (rules_pass L (Expect model) (read_text L model E s n @ data))"
      using read_Suc_chunk[OF c d, of L model] by simp
  qed
  have D: "(\<forall>j < n. goes_on L model E pattern s timeout j) \<longrightarrow>
      readUntil L E model timeout pattern s =
        readUntil_loop L E model pattern (now E (nclock s) + timeout)
          (session_after L model E s n (Suc n)) \<and>
      (\<not> late E s timeout n \<longrightarrow> rd E (nreads s + n) = Got data None \<longrightarrow> data \<noteq> [] \<longrightarrow>
         MatchString L pattern (read_text L model E s (Suc n)) \<longrightarrow>
           readUntil L E model timeout pattern s =
             Some (session_after L model E s (Suc n) (Suc (Suc n)),
                   read_text L model E s (Suc n), None))"
  proof (intro impI conjI)
    assume h: "\<forall>j < n. goes_on L model E pattern s timeout j"
    show r: "readUntil L E model timeout pattern s =
        readUntil_loop L E model pattern (now E (nclock s) + timeout)
          (session_after L model E s n (Suc n))"
      by (rule readUntil_run[OF h])
    assume l: "\<not> late E s timeout n" and g: "rd E (nreads s + n) = Got data None"
      and d: "data \<noteq> []" and m: "MatchString L pattern (read_text L model E s (Suc n))"
    have "readUntil_step L E model pattern (now E (nclock s) + timeout)
           (session_after L model E s n (Suc n)) =
          Done (session_after L model E s (Suc n) (Suc (Suc n)),
                read_text L model E s (Suc n), None)"
      using step_chunk[OF l g d, where L = L and model = model and pattern = pattern] m
      by simp
    from readUntil_loop_Done[OF this] r
    show "readUntil L E model timeout pattern s =
             Some (session_after L model E s (Suc n) (Suc (Suc n)),
                   read_text L model E s (Suc n), None)"
      by simp
  qed
  show ?thesis by (rule conjI[OF A conjI[OF B conjI[OF C D]]])
qed

theorem readUntil_applies_rules_to_every_chunk_witness:
  "fst (processExpectRules lit_pkg example_env (Expect example_model)
          \<lparr> sent = [], nreads = 4, nclock = 2, buffer = [] \<rparr> ''enable --More--'' False) =
     \<lparr> sent = ['' ''], nreads = 4, nclock = 2, buffer = [] \<rparr> \<and>
   fst (snd (processExpectRules lit_pkg example_env (Expect example_model)
          \<lparr> sent = [], nreads = 4, nclock = 2, buffer = [] \<rparr> ''enable --More--'' False)) =
     ''enable '' \<and>
   read_text lit_pkg example_model example_env
       \<lparr> sent = [], nreads = 3, nclock = 0, buffer = ''sw1#'' \<rparr> 1 =
     JoinLines [''show running-config'', ''enable ''] \<and>
   read_text lit_pkg example_model example_env
       \<lparr> sent = [], nreads = 3, nclock = 0, buffer = ''sw1#'' \<rparr> (Suc 1) =
     JoinLines [''show running-config'', ''enable secret hunter2'', ''sw1#''] \<and>
   readUntil lit_pkg example_env example_model 10 ''#''
       \<lparr> sent = [], nreads = 3, nclock = 0, buffer = ''sw1#'' \<rparr> =
     Some (\<lparr> sent = ['' ''], nreads = 5, nclock = 3,
             buffer = JoinLines [''show running-config'', ''enable secret hunter2'', ''sw1#''] \<rparr>,
           JoinLines [''show running-config'', ''enable secret hunter2'', ''sw1#''], None)"
proof -
  let ?start = "\<lparr> sent = [], nreads = 4, nclock = 2, buffer = [] \<rparr>"
  let ?s = "\<lparr> sent = [], nreads = 3, nclock = 0, buffer = ''sw1#'' \<rparr>"
  let ?data = "JoinLines [''secret hunter2'', ''sw1#'']"
  let ?text = "JoinLines [''show running-config'', ''enable secret hunter2'', ''sw1#'']"
  note t = readUntil_applies_rules_to_every_chunk
    [where L = lit_pkg and E = example_env and rules = "Expect example_model" and q = ?start
       and content = "''enable --More--''" and s = ?s and n = 1 and data = ?data
       and model = example_model and pattern = "''#''" and timeout = 10]
  have p: "rules_pass lit_pkg (Expect example_model) ''enable --More--'' = (''enable '', ['' ''])"
    by code_simp
  have a: "fst (processExpectRules lit_pkg example_env (Expect example_model) ?start
                  ''enable --More--'' False) = \<lparr> sent = ['' ''], nreads = 4, nclock = 2, buffer = [] \<rparr>"
    using t[THEN conjunct1] p by simp
  have b: "fst (snd (processExpectRules lit_pkg example_env (Expect example_model) ?start
                  ''enable --More--'' False)) = ''enable ''"
    using t[THEN conjunct2, THEN conjunct1] p by simp
  have g: "rd example_env (nreads ?s + 1) = Got ?data None" by code_simp
  have d: "?data \<noteq> []" by simp
  have r1: "read_text lit_pkg example_model example_env ?s 1 =
              JoinLines [''show running-config'', ''enable '']"
    by code_simp
  have rp: "fst (rules_pass lit_pkg (Expect example_model)
                  (JoinLines [''show running-config'', ''enable ''] @ ?data)) = ?text"
    by code_simp
  have r2: "read_text lit_pkg example_model example_env ?s (Suc 1) = ?text"
    using t[THEN conjunct2, THEN conjunct2, THEN conjunct1, THEN mp, OF g, THEN mp, OF d,
            THEN conjunct1]
    unfolding r1 rp .
  have h: "\<forall>j < 1. goes_on lit_pkg example_model example_env ''#'' ?s 10 j"
  proof (intro allI impI)
    fix j :: nat assume "j < 1"
    then have j: "j = 0" by simp
    have "goes_on lit_pkg example_model example_env ''#'' ?s 10 0" by code_simp
    then show "goes_on lit_pkg example_model example_env ''#'' ?s 10 j" using j by simp
  qed
  have l: "\<not> late example_env ?s 10 1" by code_simp
  have m: "MatchString lit_pkg ''#'' (read_text lit_pkg example_model example_env ?s (Suc 1))"
    unfolding r2 by code_simp
  have sa: "session_after lit_pkg example_model example_env ?s (Suc 1) (Suc (Suc 1)) =
              \<lparr> sent = ['' ''], nreads = 5, nclock = 3, buffer = ?text \<rparr>"
    by code_simp
  have ru: "readUntil lit_pkg example_env example_model 10 ''#'' ?s =
              Some (\<lparr> sent = ['' ''], nreads = 5, nclock = 3, buffer = ?text \<rparr>, ?text, None)"
    using t[THEN conjunct2, THEN conjunct2, THEN conjunct2, THEN mp, OF h, THEN conjunct2,
            THEN mp, OF l, THEN mp, OF g, THEN mp, OF d, THEN mp, OF m]
    unfolding sa r2 .
  show ?thesis by (rule conjI[OF a conjI[OF b conjI[OF r1 conjI[OF r2 ru]]]])
qed

section \<open>How a read ends\<close>





section \<open>Building the artifact\<close>

lemma processOutput_Inr:
  "processOutput L raw model = Inr p \<longleftrightarrow>
     (\<exists>x. applySecrets L raw (Secrets model) = Inr x \<and>
          applyExpectReplacements L x (Expect model) = Inr p)"
  by (auto simp: processOutput_def split: sum.splits)

lemma commentsLoop_Inr:
  "commentsLoop L model outs parts = Inr res \<Longrightarrow>
     \<exists>ps. map (\<lambda>raw. processOutput L raw model) outs = map Inr ps \<and>
          res = parts @ filter (\<lambda>p. p \<noteq> []) (map (\<lambda>p. commentAllLines p (Comment model)) ps)"
proof (induction outs arbitrary: parts)
  case Nil
  then show ?case by simp
next
  case (Cons raw outs)
  from Cons.prems obtain p where p: "processOutput L raw model = Inr p"
    by (cases "processOutput L raw model") auto
  let ?parts = "if commentAllLines p (Comment model) \<noteq> []
                then parts @ [commentAllLines p (Comment model)] else parts"
  have "commentsLoop L model outs ?parts = Inr res"
    using Cons.prems p by (simp add: Let_def)
  from Cons.IH[OF this] obtain ps where
    ps: "map (\<lambda>raw. processOutput L raw model) outs = map Inr ps"
        "res = ?parts @ filter (\<lambda>p. p \<noteq> []) (map (\<lambda>p. commentAllLines p (Comment model)) ps)"
    by blast
  have "map (\<lambda>raw. processOutput L raw model) (raw # outs) = map Inr (p # ps)"
    using p ps(1) by simp
  moreover have "res = parts @ filter (\<lambda>p. p \<noteq> [])
                    (map (\<lambda>p. commentAllLines p (Comment model)) (p # ps))"
    using ps(2) by simp
  ultimately show ?case by blast
qed

lemma commandsLoop_Inr:
  "commandsLoop L model outs parts = Some (Inr res) \<Longrightarrow>
     \<exists>qs bs. map (\<lambda>raw. processOutput L raw model) outs = map Inr qs \<and>
          map (\<lambda>q. commentFirstLastLines q (Comment model)) qs = map Some bs \<and>
          res = parts @ filter (\<lambda>p. p \<noteq> []) bs"
proof (induction outs arbitrary: parts)
  case Nil
  then show ?case by simp
next
  case (Cons raw outs)
  from Cons.prems obtain q where q: "processOutput L raw model = Inr q"
    by (cases "processOutput L raw model") auto
  from Cons.prems q obtain b where b: "commentFirstLastLines q (Comment model) = Some b"
    by (cases "commentFirstLastLines q (Comment model)") auto
  let ?parts = "if b \<noteq> [] then parts @ [b] else parts"
  have "commandsLoop L model outs ?parts = Some (Inr res)"
    using Cons.prems q b by simp
  from Cons.IH[OF this] obtain qs bs where
    r: "map (\<lambda>raw. processOutput L raw model) outs = map Inr qs"
       "map (\<lambda>q. commentFirstLastLines q (Comment model)) qs = map Some bs"
       "res = ?parts @ filter (\<lambda>p. p \<noteq> []) bs"
    by blast
  have "map (\<lambda>raw. processOutput L raw model) (raw # outs) = map Inr (q # qs)"
    using q r(1) by simp
  moreover have "map (\<lambda>q. commentFirstLastLines q (Comment model)) (q # qs) = map Some (b # bs)"
    using b r(2) by simp
  moreover have "res = parts @ filter (\<lambda>p. p \<noteq> []) (b # bs)"
    using r(3) by simp
  ultimately show ?case by blast
qed

lemma commandsLoop_returns: "\<exists>x. commandsLoop L model outs parts = Some x"
proof (induction outs arbitrary: parts)
  case Nil
  show ?case by simp
next
  case (Cons raw outs)
  show ?case
  proof (cases "processOutput L raw model")
    case (Inl err)
    then show ?thesis by simp
  next
    case (Inr processed)
    obtain b where "commentFirstLastLines processed (Comment model) = Some b"
      using commentFirstLastLines_returns by blast
    then show ?thesis using Inr Cons by simp
  qed
qed

lemma buildResult_returns: "\<exists>r. buildResult L d model x = Some r"
proof -
  obtain co cmo e where x: "x = (co, cmo, e)" by (cases x)
  show ?thesis
  proof (cases e)
    case (Some err)
    then show ?thesis using x by (simp add: buildResult_def)
  next
    case None
    show ?thesis
    proof (cases "commentsLoop L model co []")
      case (Inl err)
      then show ?thesis using x None by (simp add: buildResult_def)
    next
      case (Inr parts)
      obtain y where y: "commandsLoop L model cmo parts = Some y"
        using commandsLoop_returns by blast
      show ?thesis using x None Inr y by (cases y) (simp_all add: buildResult_def)
    qed
  qed
qed

lemma buildResult_ok:
  assumes "buildResult L d model (co, cmo, e) = Some r" and "Error r = None"
  shows "e = None \<and> (\<exists>ps qs bs.
           map (\<lambda>raw. processOutput L raw model) co = map Inr ps \<and>
           map (\<lambda>raw. processOutput L raw model) cmo = map Inr qs \<and>
           map (\<lambda>q. commentFirstLastLines q (Comment model)) qs = map Some bs \<and>
           Output r = JoinLines (filter (\<lambda>p. p \<noteq> [])
                         (map (\<lambda>p. commentAllLines p (Comment model)) ps @ bs)))"
proof -
  have e: "e = None" using assms by (cases e) (auto simp: buildResult_def)
  obtain parts where parts: "commentsLoop L model co [] = Inr parts"
    using assms e by (cases "commentsLoop L model co []") (auto simp: buildResult_def)
  obtain parts' where parts': "commandsLoop L model cmo parts = Some (Inr parts')"
    using assms e parts
    by (cases "commandsLoop L model cmo parts")
       (auto simp: buildResult_def split: sum.splits)
  have out: "Output r = JoinLines parts'"
    using assms e parts parts' by (auto simp: buildResult_def)
  from commentsLoop_Inr[OF parts] obtain ps where
    ps: "map (\<lambda>raw. processOutput L raw model) co = map Inr ps"
        "parts = [] @ filter (\<lambda>p. p \<noteq> []) (map (\<lambda>p. commentAllLines p (Comment model)) ps)"
    by blast
  from commandsLoop_Inr[OF parts'] obtain qs bs where
    qs: "map (\<lambda>raw. processOutput L raw model) cmo = map Inr qs"
        "map (\<lambda>q. commentFirstLastLines q (Comment model)) qs = map Some bs"
        "parts' = parts @ filter (\<lambda>p. p \<noteq> []) bs"
    by blast
  have "Output r = JoinLines (filter (\<lambda>p. p \<noteq> [])
                         (map (\<lambda>p. commentAllLines p (Comment model)) ps @ bs))"
    using out ps(2) qs(3) by simp
  then show ?thesis using e ps(1) qs(1) qs(2) by blast
qed

lemma Execute_ok:
  assumes "Execute L E d model = Some r" and "Error r = None"
  shows "\<exists>s co cmo. ConnectAndExecute L E d model = Some (s, co, cmo, None) \<and>
           buildResult L d model (co, cmo, None) = Some r"
proof -
  obtain s co cmo e where c: "ConnectAndExecute L E d model = Some (s, co, cmo, e)"
    using assms(1) by (cases "ConnectAndExecute L E d model") (auto simp: Execute_def)
  then have b: "buildResult L d model (co, cmo, e) = Some r"
    using assms(1) by (simp add: Execute_def)
  from buildResult_ok[OF b assms(2)] have "e = None" by blast
  then show ?thesis using c b by blast
qed

lemma applySecrets_redact:
  "applySecrets L raw secrets = Inr x \<Longrightarrow> x = redact L secrets raw"
proof (induction secrets arbitrary: raw)
  case Nil
  then show ?case by (simp add: redact_def)
next
  case (Cons f fs)
  from Cons.prems obtain re where re: "Compile L (FilterPattern f) = Inr re"
    by (cases "Compile L (FilterPattern f)") (auto simp: FilterRule_Regex_def)
  then have "applySecrets L (ReplaceAllString L re raw (FilterReplace f)) fs = Inr x"
    using Cons.prems by (simp add: FilterRule_Regex_def)
  from Cons.IH[OF this] re show ?case by (simp add: redact_def substitute_def)
qed

lemma applyExpectReplacements_residual:
  "applyExpectReplacements L src rules = Inr y \<Longrightarrow> y = residual L rules src"
proof (induction rules arbitrary: src)
  case Nil
  then show ?case by (simp add: residual_def)
next
  case (Cons e es)
  show ?case
  proof (cases "Replace e = [] \<and> Send e \<noteq> []")
    case True
    then have "applyExpectReplacements L src es = Inr y" using Cons.prems by simp
    from Cons.IH[OF this] True show ?thesis by (simp add: residual_def)
  next
    case False
    then obtain re where re: "Compile L (Pattern e) = Inr re"
      using Cons.prems by (cases "Compile L (Pattern e)") (auto simp: ExpectRule_Regex_def)
    then have "applyExpectReplacements L (ReplaceAllString L re src (Replace e)) es = Inr y"
      using Cons.prems False by (auto simp: ExpectRule_Regex_def)
    from Cons.IH[OF this] re False show ?thesis by (auto simp: residual_def substitute_def)
  qed
qed

lemma processOutput_filtered:
  "processOutput L raw model = Inr p \<Longrightarrow>
     p = residual L (Expect model) (redact L (Secrets model) raw)"
  using processOutput_Inr[of L raw model p] applySecrets_redact applyExpectReplacements_residual
  by blast

lemma processOutput_map_filtered:
  "map (\<lambda>raw. processOutput L raw model) outs = map Inr ps \<Longrightarrow>
     ps = map (\<lambda>raw. residual L (Expect model) (redact L (Secrets model) raw)) outs"
proof (induction outs arbitrary: ps)
  case Nil
  then show ?case by simp
next
  case (Cons raw outs)
  then obtain p ps' where ps: "ps = p # ps'" by (cases ps) auto
  with Cons.prems have a: "processOutput L raw model = Inr p"
    and b: "map (\<lambda>raw. processOutput L raw model) outs = map Inr ps'" by simp_all
  from processOutput_filtered[OF a] Cons.IH[OF b] ps show ?case by simp
qed

lemma executeEach_answered:
  "executeEach L E m t wrap s cmds = Some (s', Inr outs) \<Longrightarrow> answered L E m t s cmds s' outs"
proof (induction cmds arbitrary: s outs)
  case Nil
  then show ?case by auto
next
  case (Cons c cs)
  from Cons.prems obtain s1 out where
    x: "Session_Execute L E m t s c = Some (s1, out, None)"
    by (cases "Session_Execute L E m t s c") (auto split: option.splits prod.splits)
  from Cons.prems x obtain rest where
    y: "executeEach L E m t wrap s1 cs = Some (s', Inr rest)" and o: "outs = out # rest"
    by (cases "executeEach L E m t wrap s1 cs")
       (auto split: option.splits prod.splits sum.splits)
  from Cons.IH[OF y] x o show ?case by simp
qed

lemma answered_executeEach:
  "answered L E m t s cmds s' outs \<Longrightarrow> executeEach L E m t wrap s cmds = Some (s', Inr outs)"
proof (induction cmds arbitrary: s outs)
  case Nil
  then show ?case by simp
next
  case (Cons c cs)
  from Cons.prems obtain out rest where o: "outs = out # rest" by (cases outs) auto
  from Cons.prems o obtain s1 where
    x: "Session_Execute L E m t s c = Some (s1, out, None)"
    and a: "answered L E m t s1 cs s' rest"
    by (cases "Session_Execute L E m t s c")
       (auto split: option.splits prod.splits)
  from Cons.IH[OF a] x o show ?case by simp
qed

lemma ConnectAndExecute_ok:
  assumes "ConnectAndExecute L E d model = Some (s', co, cmo, None)"
  shows "\<exists>s0 sa sb. Connect L E d model = Some (s0, None) \<and>
           answered L E model (EffectiveTimeout d) s0 (Comments model) sa co \<and>
           answered L E model (EffectiveTimeout d) sa (Commands model) sb cmo"
proof -
  let ?t = "EffectiveTimeout d"
  from assms obtain s0 where c: "Connect L E d model = Some (s0, None)"
    by (cases "Connect L E d model")
       (auto simp: ConnectAndExecute_def split: option.splits prod.splits)
  from assms c obtain sa co' where
    a: "executeEach L E model ?t ExecuteComment s0 (Comments model) = Some (sa, Inr co')"
    by (cases "executeEach L E model ?t ExecuteComment s0 (Comments model)")
       (auto simp: ConnectAndExecute_def split: option.splits prod.splits sum.splits)
  from assms c a obtain sb cmo' where
    b: "executeEach L E model ?t ExecuteQ sa (Commands model) = Some (sb, Inr cmo')"
    by (cases "executeEach L E model ?t ExecuteQ sa (Commands model)")
       (auto simp: ConnectAndExecute_def split: option.splits prod.splits sum.splits)
  from assms c a b have e: "co' = co" "cmo' = cmo"
    by (simp_all add: ConnectAndExecute_def)
  from executeEach_answered[OF a] executeEach_answered[OF b] c e show ?thesis by blast
qed

text \<open>
  C5: when \<open>Execute\<close> returns a result without error, the connection was made, the
  annotation commands were answered one after the other in declared order and then the
  capture commands, also in declared order; and the text of the result is the join, with
  one line terminator between two parts, of the non-empty parts among: for each annotation
  command's output, in order, the output redacted, then passed through the residual
  replacement, then annotated on all lines; followed by, for each capture command's
  output, in order, the output redacted, then passed through the residual replacement,
  then annotated on its boundary lines.
\<close>

theorem Execute_composition:
  assumes "Execute L E d model = Some r" and "Error r = None"
  shows "\<exists>s0 sa sb commentsOutputs commandsOutputs bs.
           Connect L E d model = Some (s0, None) \<and>
           answered L E model (EffectiveTimeout d) s0 (Comments model) sa commentsOutputs \<and>
           answered L E model (EffectiveTimeout d) sa (Commands model) sb commandsOutputs \<and>
           map (\<lambda>raw. commentFirstLastLines
                         (residual L (Expect model) (redact L (Secrets model) raw))
                         (Comment model)) commandsOutputs = map Some bs \<and>
           Output r = JoinLines (filter (\<lambda>p. p \<noteq> [])
                        (map (\<lambda>raw. commentAllLines
                                       (residual L (Expect model) (redact L (Secrets model) raw))
                                       (Comment model)) commentsOutputs @ bs))"
proof -
  from Execute_ok[OF assms] obtain s' co cmo where
    c: "ConnectAndExecute L E d model = Some (s', co, cmo, None)"
       "buildResult L d model (co, cmo, None) = Some r" by blast
  from ConnectAndExecute_ok[OF c(1)] obtain s0 sa sb where
    a: "Connect L E d model = Some (s0, None)"
       "answered L E model (EffectiveTimeout d) s0 (Comments model) sa co"
       "answered L E model (EffectiveTimeout d) sa (Commands model) sb cmo" by blast
  from buildResult_ok[OF c(2) assms(2)] obtain ps qs bs where
    b: "map (\<lambda>raw. processOutput L raw model) co = map Inr ps"
       "map (\<lambda>raw. processOutput L raw model) cmo = map Inr qs"
       "map (\<lambda>q. commentFirstLastLines q (Comment model)) qs = map Some bs"
       "Output r = JoinLines (filter (\<lambda>p. p \<noteq> [])
                         (map (\<lambda>p. commentAllLines p (Comment model)) ps @ bs))"
    by blast
  note ps = processOutput_map_filtered[OF b(1)]
  note qs = processOutput_map_filtered[OF b(2)]
  have x: "map (\<lambda>raw. commentFirstLastLines
                         (residual L (Expect model) (redact L (Secrets model) raw))
                         (Comment model)) cmo = map Some bs"
    using b(3) unfolding qs by (simp add: comp_def)
  have y: "Output r = JoinLines (filter (\<lambda>p. p \<noteq> [])
                        (map (\<lambda>raw. commentAllLines
                                       (residual L (Expect model) (redact L (Secrets model) raw))
                                       (Comment model)) co @ bs))"
    using b(4) unfolding ps by (simp add: comp_def)
  show ?thesis
    by (rule exI[of _ s0], rule exI[of _ sa], rule exI[of _ sb], rule exI[of _ co],
        rule exI[of _ cmo], rule exI[of _ bs],
        rule conjI[OF a(1) conjI[OF a(2) conjI[OF a(3) conjI[OF x y]]]])
qed

theorem Execute_composition_witness:
  "Execute lit_pkg example_env3 example_device example_model3 =
     Some \<lparr> Device = example_device,
            Output = JoinLines [''! show version'', ''! EOS 4'', ''! sw1#'',
                       ''! show inventory'', ''! SN 1'', ''! sw1#'',
                       ''! show running-config'', ''enable secret <removed>'', ''! sw1#'',
                       ''! show vlan'', ''vlan 10'', ''! sw1#''],
            Error = None \<rparr> \<and>
   (\<exists>s0 sa sb commentsOutputs commandsOutputs bs.
      Connect lit_pkg example_env3 example_device example_model3 = Some (s0, None) \<and>
      answered lit_pkg example_env3 example_model3 (EffectiveTimeout example_device) s0
        (Comments example_model3) sa commentsOutputs \<and>
      answered lit_pkg example_env3 example_model3 (EffectiveTimeout example_device) sa
        (Commands example_model3) sb commandsOutputs \<and>
      map (\<lambda>raw. commentFirstLastLines
                    (residual lit_pkg (Expect example_model3)
                       (redact lit_pkg (Secrets example_model3) raw))
                    (Comment example_model3)) commandsOutputs = map Some bs \<and>
      JoinLines [''! show version'', ''! EOS 4'', ''! sw1#'',
                 ''! show inventory'', ''! SN 1'', ''! sw1#'',
                 ''! show running-config'', ''enable secret <removed>'', ''! sw1#'',
                 ''! show vlan'', ''vlan 10'', ''! sw1#''] =
        JoinLines (filter (\<lambda>p. p \<noteq> [])
           (map (\<lambda>raw. commentAllLines
                          (residual lit_pkg (Expect example_model3)
                             (redact lit_pkg (Secrets example_model3) raw))
                          (Comment example_model3)) commentsOutputs @ bs)))"
proof -
  let ?out = "JoinLines [''! show version'', ''! EOS 4'', ''! sw1#'',
                       ''! show inventory'', ''! SN 1'', ''! sw1#'',
                       ''! show running-config'', ''enable secret <removed>'', ''! sw1#'',
                       ''! show vlan'', ''vlan 10'', ''! sw1#'']"
  let ?r = "\<lparr> Device = example_device, Output = ?out, Error = None \<rparr>"
  have e: "Execute lit_pkg example_env3 example_device example_model3 = Some ?r"
    by code_simp
  have n: "Error ?r = None" by simp
  have o: "Output ?r = ?out" by simp
  note t = Execute_composition[OF e n]
  show ?thesis by (rule conjI[OF e t[unfolded o]])
qed

text \<open>
  C10: with the empty prefix \<open>commentAllLines\<close> and \<open>commentFirstLastLines\<close> return
  every text unchanged; so for a model whose comment string is empty, the text of a
  result without error is the non-empty outputs after \<open>processOutput\<close> (redaction
  included), joined, with no annotation.
\<close>

theorem empty_comment_no_annotation:
  "commentAllLines T [] = T \<and> commentFirstLastLines T [] = Some T \<and>
   (Comment model = [] \<longrightarrow> Execute L E d model = Some r \<longrightarrow> Error r = None \<longrightarrow>
      (\<exists>s commentsOutputs commandsOutputs ps qs.
         ConnectAndExecute L E d model = Some (s, commentsOutputs, commandsOutputs, None) \<and>
         map (\<lambda>raw. processOutput L raw model) commentsOutputs = map Inr ps \<and>
         map (\<lambda>raw. processOutput L raw model) commandsOutputs = map Inr qs \<and>
         Output r = JoinLines (filter (\<lambda>p. p \<noteq> []) (ps @ qs))))"
proof -
  have a: "commentAllLines T [] = T" by (simp add: commentAllLines_def)
  have b: "commentFirstLastLines T [] = Some T" by (simp add: commentFirstLastLines_def)
  have c: "\<exists>s commentsOutputs commandsOutputs ps qs.
         ConnectAndExecute L E d model = Some (s, commentsOutputs, commandsOutputs, None) \<and>
         map (\<lambda>raw. processOutput L raw model) commentsOutputs = map Inr ps \<and>
         map (\<lambda>raw. processOutput L raw model) commandsOutputs = map Inr qs \<and>
         Output r = JoinLines (filter (\<lambda>p. p \<noteq> []) (ps @ qs))"
    if h: "Comment model = []" "Execute L E d model = Some r" "Error r = None"
  proof -
    from Execute_ok[OF h(2) h(3)] obtain s co cmo where
      c: "ConnectAndExecute L E d model = Some (s, co, cmo, None)"
         "buildResult L d model (co, cmo, None) = Some r" by blast
    from buildResult_ok[OF c(2) h(3)] obtain ps qs bs where
      r: "map (\<lambda>raw. processOutput L raw model) co = map Inr ps"
         "map (\<lambda>raw. processOutput L raw model) cmo = map Inr qs"
         "map (\<lambda>q. commentFirstLastLines q (Comment model)) qs = map Some bs"
         "Output r = JoinLines (filter (\<lambda>p. p \<noteq> [])
                         (map (\<lambda>p. commentAllLines p (Comment model)) ps @ bs))"
      by blast
    have "map Some bs = map Some qs"
      using r(3) h(1) by (simp add: commentFirstLastLines_def)
    then have "bs = qs" by (simp add: inj_map_eq_map)
    moreover have "map (\<lambda>p. commentAllLines p (Comment model)) ps = ps"
      using h(1) by (simp add: commentAllLines_def)
    ultimately have "Output r = JoinLines (filter (\<lambda>p. p \<noteq> []) (ps @ qs))"
      using r(4) by simp
    then show ?thesis using c(1) r(1) r(2) by blast
  qed
  show ?thesis using a b c by blast
qed

theorem empty_comment_no_annotation_witness:
  "commentAllLines ''sw1#'' [] = ''sw1#'' \<and>
   Comment (example_model\<lparr>Comment := []\<rparr>) = [] \<and>
   Execute lit_pkg example_env example_device (example_model\<lparr>Comment := []\<rparr>) =
     Some \<lparr> Device = example_device,
            Output = JoinLines [''show inventory'', ''SN 1'', ''sw1#'',
                       ''show running-config'', ''enable secret <removed>'', ''sw1#''],
            Error = None \<rparr> \<and>
   (\<exists>s commentsOutputs commandsOutputs ps qs.
      ConnectAndExecute lit_pkg example_env example_device (example_model\<lparr>Comment := []\<rparr>) =
        Some (s, commentsOutputs, commandsOutputs, None) \<and>
      map (\<lambda>raw. processOutput lit_pkg raw (example_model\<lparr>Comment := []\<rparr>)) commentsOutputs
        = map Inr ps \<and>
      map (\<lambda>raw. processOutput lit_pkg raw (example_model\<lparr>Comment := []\<rparr>)) commandsOutputs
        = map Inr qs \<and>
      JoinLines [''show inventory'', ''SN 1'', ''sw1#'',
                 ''show running-config'', ''enable secret <removed>'', ''sw1#''] =
        JoinLines (filter (\<lambda>p. p \<noteq> []) (ps @ qs)))"
proof -
  let ?m = "example_model\<lparr>Comment := []\<rparr>"
  let ?r = "\<lparr> Device = example_device,
            Output = JoinLines [''show inventory'', ''SN 1'', ''sw1#'',
                       ''show running-config'', ''enable secret <removed>'', ''sw1#''],
            Error = None \<rparr>"
  have c: "Comment ?m = []" by simp
  have e: "Execute lit_pkg example_env example_device ?m = Some ?r"
    by code_simp
  have n: "Error ?r = None" by simp
  note th = empty_comment_no_annotation
              [of "''sw1#''" ?m lit_pkg example_env example_device ?r]
  from th c e n have
    "\<exists>s commentsOutputs commandsOutputs ps qs.
      ConnectAndExecute lit_pkg example_env example_device ?m =
        Some (s, commentsOutputs, commandsOutputs, None) \<and>
      map (\<lambda>raw. processOutput lit_pkg raw ?m) commentsOutputs = map Inr ps \<and>
      map (\<lambda>raw. processOutput lit_pkg raw ?m) commandsOutputs = map Inr qs \<and>
      Output ?r = JoinLines (filter (\<lambda>p. p \<noteq> []) (ps @ qs))"
    by blast
  moreover have "commentAllLines ''sw1#'' [] = ''sw1#''" using th by blast
  ultimately show ?thesis using e c by simp
qed

section \<open>Validation of the patterns at load time\<close>

lemma compiles_iff: "compiles L p \<longleftrightarrow> (\<exists>re. Compile L p = Inr re)"
  by (cases "Compile L p") (simp_all add: compiles_def)

lemma validateExpect_None:
  "validateExpect L name i es = None \<longleftrightarrow> (\<forall>e \<in> set es. compiles L (Pattern e))"
proof (induction es arbitrary: i)
  case Nil show ?case by simp
next
  case (Cons e es)
  show ?case using Cons[of "Suc i"]
    by (cases "Compile L (Pattern e)") (auto simp: ExpectRule_Regex_def compiles_def)
qed

lemma validateSecrets_None:
  "validateSecrets L name i fs = None \<longleftrightarrow>
     (\<forall>f \<in> set fs. compiles L (FilterPattern f))"
proof (induction fs arbitrary: i)
  case Nil show ?case by simp
next
  case (Cons f fs)
  show ?case using Cons[of "Suc i"]
    by (cases "Compile L (FilterPattern f)") (auto simp: FilterRule_Regex_def compiles_def)
qed

text \<open>An entry passes the checks of one round of the loop when it has a body, a prompt,
  compilable patterns and a command; the round returns an error for every other entry
  that has a body.\<close>

lemma validateModels_body:
  "validateModels L ((name, Some m) # rest) =
     (if Prompt m \<noteq> [] \<and> compilable L m \<and> Commands m \<noteq> [] then validateModels L rest
      else validateModels L [(name, Some m)]) \<and>
   (\<not> (Prompt m \<noteq> [] \<and> compilable L m \<and> Commands m \<noteq> []) \<longrightarrow>
      (\<exists>err. validateModels L [(name, Some m)] = Some (Some err)))"
proof -
  have c: "compilable L m \<longleftrightarrow>
             compiles L (Prompt m) \<and>
             validateExpect L name 0 (Expect m) = None \<and>
             validateSecrets L name 0 (Secrets m) = None"
    by (simp add: compilable_def validateExpect_None validateSecrets_None)
  show ?thesis unfolding c
    by (cases "Compile L (Prompt m)"; cases "validateExpect L name 0 (Expect m)";
        cases "validateSecrets L name 0 (Secrets m)")
       (simp_all add: PromptRegex_def compiles_def)
qed

text \<open>The loop returns the nil error exactly when every entry has a body that passes
  the checks.\<close>

lemma validateModels_nil_error:
  "validateModels L ms = Some None \<longleftrightarrow>
     (\<forall>(name, mo) \<in> set ms.
        \<exists>m. mo = Some m \<and> Prompt m \<noteq> [] \<and> compilable L m \<and> Commands m \<noteq> [])"
proof (induction ms)
  case Nil show ?case by simp
next
  case (Cons nm ms)
  obtain name mo where nm: "nm = (name, mo)" by (cases nm)
  show ?case
  proof (cases mo)
    case None
    then show ?thesis using nm by simp
  next
    case (Some m)
    note b = validateModels_body[of L name m ms]
    show ?thesis
    proof (cases "Prompt m \<noteq> [] \<and> compilable L m \<and> Commands m \<noteq> []")
      case True
      then show ?thesis using b Cons nm Some by simp
    next
      case False
      then obtain err where "validateModels L [(name, Some m)] = Some (Some err)"
        using b by blast
      then have "validateModels L (nm # ms) = Some (Some err)"
        using b False nm Some by simp
      then show ?thesis using False nm Some by auto
    qed
  qed
qed

text \<open>The loop panics exactly when it reaches an entry without a body, all entries
  before it passing the checks.\<close>

lemma validateModels_panics:
  "validateModels L ms = None \<longleftrightarrow>
     (\<exists>pre name rest. ms = pre @ (name, None) # rest \<and> validateModels L pre = Some None)"
proof (induction ms)
  case Nil show ?case by simp
next
  case (Cons nm ms)
  obtain name mo where nm: "nm = (name, mo)" by (cases nm)
  show ?case
  proof (cases mo)
    case None
    have "nm # ms = [] @ (name, None) # ms \<and> validateModels L [] = Some None"
      using nm None by simp
    then have "\<exists>pre name rest. nm # ms = pre @ (name, None) # rest \<and>
                 validateModels L pre = Some None"
      by blast
    then show ?thesis using nm None by simp
  next
    case (Some m)
    note b = validateModels_body[of L name m ms]
    note b0 = validateModels_body[of L name m]
    show ?thesis
    proof (cases "Prompt m \<noteq> [] \<and> compilable L m \<and> Commands m \<noteq> []")
      case True
      have l: "validateModels L (nm # ms) = validateModels L ms"
        using b True nm Some by simp
      have "(\<exists>pre name rest. nm # ms = pre @ (name, None) # rest \<and>
                validateModels L pre = Some None) \<longleftrightarrow>
            (\<exists>pre name rest. ms = pre @ (name, None) # rest \<and>
                validateModels L pre = Some None)"
      proof
        assume "\<exists>pre name rest. nm # ms = pre @ (name, None) # rest \<and>
                  validateModels L pre = Some None"
        then obtain pre n1 rest where e: "nm # ms = pre @ (n1, None) # rest"
          and v: "validateModels L pre = Some None" by blast
        have "pre \<noteq> []" using e nm Some by auto
        then obtain pre' where p: "pre = nm # pre'" using e by (cases pre) auto
        have "validateModels L pre' = Some None"
          using v b0[of pre'] True p nm Some by simp
        then show "\<exists>pre name rest. ms = pre @ (name, None) # rest \<and>
                     validateModels L pre = Some None"
          using e p by auto
      next
        assume "\<exists>pre name rest. ms = pre @ (name, None) # rest \<and>
                  validateModels L pre = Some None"
        then obtain pre n1 rest where e: "ms = pre @ (n1, None) # rest"
          and v: "validateModels L pre = Some None" by blast
        have "nm # ms = (nm # pre) @ (n1, None) # rest" using e by simp
        moreover have "validateModels L (nm # pre) = Some None"
          using v b0[of pre] True nm Some by simp
        ultimately show "\<exists>pre name rest. nm # ms = pre @ (name, None) # rest \<and>
                  validateModels L pre = Some None"
          by blast
      qed
      then show ?thesis using l Cons by simp
    next
      case False
      then obtain err where e0: "validateModels L [(name, Some m)] = Some (Some err)"
        using b by blast
      then have l: "validateModels L (nm # ms) = Some (Some err)"
        using b False nm Some by simp
      have "\<not> (\<exists>pre n1 rest. nm # ms = pre @ (n1, None) # rest \<and>
                validateModels L pre = Some None)"
      proof
        assume "\<exists>pre n1 rest. nm # ms = pre @ (n1, None) # rest \<and>
                  validateModels L pre = Some None"
        then obtain pre n1 rest where e: "nm # ms = pre @ (n1, None) # rest"
          and v: "validateModels L pre = Some None" by blast
        have "pre \<noteq> []" using e nm Some by auto
        then obtain pre' where p: "pre = nm # pre'" using e by (cases pre) auto
        have "validateModels L pre = Some (Some err)"
          using b0[of pre'] False p nm Some e0 by simp
        then show False using v by simp
      qed
      then show ?thesis using l by simp
    qed
  qed
qed

text \<open>
  What the validation guarantees. A file in which every model has a body and one model
  is not compilable fails to load with an error, and \<open>main\<close> then exits with 1 having
  started no device task. Every model of a file that loaded has a body and is compilable.
\<close>

lemma LoadModelFile_rejects:
  assumes "(name, Some m) \<in> set (Models mf)" and "\<not> compilable L m"
    and "\<forall>(n, mo) \<in> set (Models mf). mo \<noteq> None"
    and "rf path = Inr data" and "um data = Inr mf"
  shows "\<exists>err. LoadModelFile L rf um path = Some (Inl err)"
proof -
  have n: "validateModels L (Models mf) \<noteq> None"
  proof
    assume "validateModels L (Models mf) = None"
    then obtain pre n1 rest where "Models mf = pre @ (n1, None) # rest"
      unfolding validateModels_panics by blast
    then have "(n1, None) \<in> set (Models mf)" by simp
    from bspec[OF assms(3) this] show False by simp
  qed
  have s: "validateModels L (Models mf) \<noteq> Some None"
  proof
    assume "validateModels L (Models mf) = Some None"
    then have "\<forall>(name, mo) \<in> set (Models mf).
        \<exists>m. mo = Some m \<and> Prompt m \<noteq> [] \<and> compilable L m \<and> Commands m \<noteq> []"
      unfolding validateModels_nil_error .
    from bspec[OF this assms(1)] assms(2) show False by simp
  qed
  have "\<exists>err. validateModelFile L mf = Some (Some err)"
  proof (cases "length (Models mf) = 0")
    case True
    then show ?thesis by (simp add: validateModelFile_def)
  next
    case False
    then show ?thesis using n s
      by (cases "validateModels L (Models mf)") (auto simp: validateModelFile_def)
  qed
  then show ?thesis using assms(4,5) by (auto simp: LoadModelFile_def)
qed

lemma main_load_fails:
  "routerdbPath \<noteq> [] \<Longrightarrow> modelPath \<noteq> [] \<Longrightarrow>
   LoadModelFile L (readFile H) (unmarshal H) modelPath = Some (Inl err) \<Longrightarrow>
     main L H routerdbPath modelPath workers = Some (1, [])"
  by (auto simp: main_def split: sum.splits)

lemma main_load_panics:
  "routerdbPath \<noteq> [] \<Longrightarrow> modelPath \<noteq> [] \<Longrightarrow> loadRouterDB H routerdbPath = Inr db \<Longrightarrow>
   LoadModelFile L (readFile H) (unmarshal H) modelPath = None \<Longrightarrow>
     main L H routerdbPath modelPath workers = None"
  by (simp add: main_def)

lemma LoadModelFile_loaded:
  assumes "LoadModelFile L rf um path = Some (Inr mf)"
  shows "\<forall>(name, mo) \<in> set (Models mf). \<exists>m. mo = Some m \<and> compilable L m"
proof -
  have "validateModelFile L mf = Some None"
    using assms by (auto simp: LoadModelFile_def split: sum.splits option.splits)
  then have "validateModels L (Models mf) = Some None"
    by (simp add: validateModelFile_def split: if_splits)
  then show ?thesis unfolding validateModels_nil_error by fast
qed

text \<open>
  C4 fails at a concrete model file: the entry \<open>old\<close> has no body (in YAML, \<open>old:\<close>
  with nothing after it) and the entry \<open>eos\<close> has the interrupt pattern \<open>(\<close>, which does
  not compile. When the loop of \<open>validateModelFile\<close> visits \<open>old\<close> first, it reads
  \<open>m.Prompt\<close> through a nil pointer: the validation, \<open>LoadModelFile\<close> and \<open>main\<close> panic,
  and no configuration error is returned. Visiting \<open>eos\<close> first, or without the entry
  \<open>old\<close>, the same pattern is reported as an error and \<open>main\<close> exits with status 1.
\<close>

theorem LoadModelFile_nil_model_panics:
  "Compile lit_pkg (Pattern (hd (Expect example_bad_model))) = Inl ''error parsing regexp'' \<and>
   validateModelFile lit_pkg \<lparr> Models = [(''old'', None), (''eos'', Some example_bad_model)] \<rparr> =
     None \<and>
   LoadModelFile lit_pkg (readFile example_host) (unmarshal example_host) ''null.yaml'' = None \<and>
   main lit_pkg example_host ''routerdb.yaml'' ''null.yaml'' 5 = None \<and>
   validateModelFile lit_pkg \<lparr> Models = [(''eos'', Some example_bad_model), (''old'', None)] \<rparr> =
     Some (Some (InModelExpect ''eos'' 0 (CompileExpect ''('' ''error parsing regexp''))) \<and>
   LoadModelFile lit_pkg (readFile example_host) (unmarshal example_host) ''bad.yaml'' =
     Some (Inl (InModelExpect ''eos'' 0 (CompileExpect ''('' ''error parsing regexp''))) \<and>
   main lit_pkg example_host ''routerdb.yaml'' ''bad.yaml'' 5 = Some (1, [])"
  by code_simp

section \<open>Failure of a command\<close>

lemma executeEach_stops:
  "answered L E m t s pre s2 outs \<Longrightarrow>
   Session_Execute L E m t s2 c = Some (s3, out, Some err) \<Longrightarrow>
   executeEach L E m t wrap s (pre @ c # post) = Some (s3, Inl (wrap c err))"
proof (induction pre arbitrary: s outs)
  case Nil
  then show ?case by simp
next
  case (Cons c1 cs1)
  from Cons.prems(1) obtain o1 rest where o: "outs = o1 # rest" by (cases outs) auto
  from Cons.prems(1) o obtain sa where
    x: "Session_Execute L E m t s c1 = Some (sa, o1, None)"
    and a: "answered L E m t sa cs1 s2 rest"
    by (cases "Session_Execute L E m t s c1") (auto split: option.splits prod.splits)
  from Cons.IH[OF a Cons.prems(2)] x show ?case by simp
qed

lemma ExecutePostLogin_stops:
  "answered L E m t s pre s2 outs \<Longrightarrow>
   Session_Execute L E m t s2 c = Some (s3, out, Some err) \<Longrightarrow>
   ExecutePostLogin L E m t s (pre @ c # post) = Some (s3, Some (ExecuteQ c err))"
proof (induction pre arbitrary: s outs)
  case Nil
  then show ?case by simp
next
  case (Cons c1 cs1)
  from Cons.prems(1) obtain o1 rest where o: "outs = o1 # rest" by (cases outs) auto
  from Cons.prems(1) o obtain sa where
    x: "Session_Execute L E m t s c1 = Some (sa, o1, None)"
    and a: "answered L E m t sa cs1 s2 rest"
    by (cases "Session_Execute L E m t s c1") (auto split: option.splits prod.splits)
  from Cons.IH[OF a Cons.prems(2)] x show ?case by simp
qed

lemma ExecutePostLogin_answered:
  "answered L E m t s cmds s' outs \<Longrightarrow> ExecutePostLogin L E m t s cmds = Some (s', None)"
proof (induction cmds arbitrary: s outs)
  case Nil
  then show ?case by simp
next
  case (Cons c1 cs1)
  from Cons.prems(1) obtain o1 rest where o: "outs = o1 # rest" by (cases outs) auto
  from Cons.prems(1) o obtain sa where
    x: "Session_Execute L E m t s c1 = Some (sa, o1, None)"
    and a: "answered L E m t sa cs1 s' rest"
    by (cases "Session_Execute L E m t s c1") (auto split: option.splits prod.splits)
  from Cons.IH[OF a] x show ?case by simp
qed

lemma Connect_fault:
  "connect_fault E = Some msg \<Longrightarrow>
     Connect L E d m = Some (NewSession, Some (ConnectFault msg))"
  by (simp add: Connect_def)

lemma Connect_prompt_fails:
  "connect_fault E = None \<Longrightarrow>
   ReadUntilPrompt L E m (EffectiveTimeout d) NewSession = Some (s1, out0, Some err0) \<Longrightarrow>
     Connect L E d m = Some (s1, Some (WaitInitialPrompt err0))"
  by (simp add: Connect_def)

lemma Connect_post_login_fails:
  "connect_fault E = None \<Longrightarrow>
   ReadUntilPrompt L E m (EffectiveTimeout d) NewSession = Some (s1, out0, None) \<Longrightarrow>
   PostLogin (Connection m) = pre @ c # post \<Longrightarrow>
   answered L E m (EffectiveTimeout d) s1 pre s2 outs \<Longrightarrow>
   Session_Execute L E m (EffectiveTimeout d) s2 c = Some (s3, out, Some err) \<Longrightarrow>
     Connect L E d m = Some (s3, Some (PostLoginErr (ExecuteQ c err)))"
  using ExecutePostLogin_stops[of L E m "EffectiveTimeout d" s1 pre s2 outs c s3 out err post]
  by (simp add: Connect_def)

lemma Connect_succeeds:
  "connect_fault E = None \<Longrightarrow>
   ReadUntilPrompt L E m (EffectiveTimeout d) NewSession = Some (s1, out0, None) \<Longrightarrow>
   answered L E m (EffectiveTimeout d) s1 (PostLogin (Connection m)) s0 pouts \<Longrightarrow>
     Connect L E d m = Some (s0, None)"
  using ExecutePostLogin_answered[of L E m "EffectiveTimeout d" s1 "PostLogin (Connection m)" s0 pouts]
  by (simp add: Connect_def)

lemma ConnectAndExecute_connect_fails:
  "Connect L E d m = Some (s, Some e) \<Longrightarrow> ConnectAndExecute L E d m = Some (s, [], [], Some e)"
  by (simp add: ConnectAndExecute_def)

lemma ConnectAndExecute_comment_fails:
  "Connect L E d m = Some (s0, None) \<Longrightarrow>
   Comments m = pre @ c # post \<Longrightarrow>
   answered L E m (EffectiveTimeout d) s0 pre s2 outs \<Longrightarrow>
   Session_Execute L E m (EffectiveTimeout d) s2 c = Some (s3, out, Some err) \<Longrightarrow>
   ConnectAndExecute L E d m = Some (s3, [], [], Some (ExecuteComment c err))"
  using executeEach_stops[of L E m "EffectiveTimeout d" s0 pre s2 outs c s3 out err
          ExecuteComment post]
  by (simp add: ConnectAndExecute_def)

lemma ConnectAndExecute_command_fails:
  "Connect L E d m = Some (s0, None) \<Longrightarrow>
   answered L E m (EffectiveTimeout d) s0 (Comments m) sa co \<Longrightarrow>
   Commands m = pre @ c # post \<Longrightarrow>
   answered L E m (EffectiveTimeout d) sa pre s2 outs \<Longrightarrow>
   Session_Execute L E m (EffectiveTimeout d) s2 c = Some (s3, out, Some err) \<Longrightarrow>
   ConnectAndExecute L E d m = Some (s3, co, [], Some (ExecuteQ c err))"
  using executeEach_stops[of L E m "EffectiveTimeout d" sa pre s2 outs c s3 out err ExecuteQ post]
        answered_executeEach[of L E m "EffectiveTimeout d" s0 "Comments m" sa co ExecuteComment]
  by (simp add: ConnectAndExecute_def)

lemma Session_Execute_sends:
  "wr_fault E (length (sent s)) = None \<Longrightarrow> Compile L (Prompt m) = Inr re \<Longrightarrow>
     Session_Execute L E m t s c = readUntil L E m t re (s\<lparr>sent := sent s @ [c @ [LF]]\<rparr>)"
  by (simp add: Session_Execute_def SendLine_def Session_Send_def ReadUntilPrompt_def
        PromptRegex_def)

lemma Session_Execute_write_fails:
  "wr_fault E (length (sent s)) = Some wmsg \<Longrightarrow>
     Session_Execute L E m t s c =
       Some (s\<lparr>sent := sent s @ [c @ [LF]]\<rparr>, [], Some (SendCommand wmsg))"
  by (simp add: Session_Execute_def SendLine_def Session_Send_def)

lemma Execute_error:
  "ConnectAndExecute L E d m = Some (sf, co, cmo, Some e) \<Longrightarrow>
   Execute L E d m = Some \<lparr> Device = d, Output = [], Error = Some e \<rparr>"
  by (simp add: Execute_def buildResult_def)

lemma deviceTask_error:
  "Execute L E d m = Some r \<Longrightarrow> Error r \<noteq> None \<Longrightarrow> deviceTask L E wfault d m = Some (r, None)"
  by (cases "Error r") (simp_all add: deviceTask_def)

lemma outcomes_nth:
  "j < length (Devices db) \<Longrightarrow>
   outcomes L H workers db mf ! j = dispatch L H workers mf j (Devices db ! j)"
  by (simp add: outcomes_def)

lemma outcomes_length: "length (outcomes L H workers db mf) = length (Devices db)"
  by (simp add: outcomes_def)

lemma dispatch_other_env:
  "j \<noteq> i \<Longrightarrow> dispatch L (H\<lparr>envs := (envs H)(i := E')\<rparr>) workers mf j d = dispatch L H workers mf j d"
  by (simp add: dispatch_def split: option.splits)

lemma dispatch_failed:
  assumes "map_of (Models mf) (Model d) = Some (Some m)" and "workers \<noteq> 0"
    and "ConnectAndExecute L (envs H i) d m = Some (sf, co, cmo, Some e)"
  shows "dispatch L H workers mf i d =
           Spawned (Some (\<lparr> Device = d, Output = [], Error = Some e \<rparr>, None))"
proof -
  have x: "Execute L (envs H i) d m = Some \<lparr> Device = d, Output = [], Error = Some e \<rparr>"
    by (rule Execute_error[OF assms(3)])
  have "deviceTask L (envs H i) (wfaults H i) d m =
          Some (\<lparr> Device = d, Output = [], Error = Some e \<rparr>, None)"
    by (rule deviceTask_error[OF x]) simp
  then show ?thesis using assms(1,2) by (simp add: dispatch_def)
qed

text \<open>
  C9: wherever the run of a device fails, \<open>ConnectAndExecute\<close> returns the error at that
  point and runs nothing after it: a connection fault; an error of the read of the
  initial prompt; an error of a post-login command, the commands before it answered; an
  error of an annotation command, the post-login commands and the annotation commands
  before it answered, no output being returned; an error of a capture command, the
  commands before it answered, no capture output being returned. Running a command is
  writing it and reading until the prompt, so that the error of that read, a timeout
  included, is the error of the command; a command that cannot be written fails at once.
  Whenever \<open>ConnectAndExecute\<close> returns an error, the Result of the device holds that
  error and the empty text, and the device task writes no file. In the list of outcomes
  the failing device has that Result, and the outcome of every other device does not
  depend on the remote side of the failing one.
\<close>

theorem failed_command_aborts_device:
  "(connect_fault E = Some msg \<longrightarrow>
      ConnectAndExecute L E d m = Some (NewSession, [], [], Some (ConnectFault msg))) \<and>
   (connect_fault E = None \<longrightarrow>
      (ReadUntilPrompt L E m (EffectiveTimeout d) NewSession = Some (s1, out0, Some err0) \<longrightarrow>
         ConnectAndExecute L E d m = Some (s1, [], [], Some (WaitInitialPrompt err0))) \<and>
      (ReadUntilPrompt L E m (EffectiveTimeout d) NewSession = Some (s1, out0, None) \<longrightarrow>
         (PostLogin (Connection m) = pre @ c # post \<longrightarrow>
          answered L E m (EffectiveTimeout d) s1 pre s2 outs \<longrightarrow>
          Session_Execute L E m (EffectiveTimeout d) s2 c = Some (s3, out, Some err) \<longrightarrow>
            ConnectAndExecute L E d m =
              Some (s3, [], [], Some (PostLoginErr (ExecuteQ c err)))) \<and>
         (answered L E m (EffectiveTimeout d) s1 (PostLogin (Connection m)) s0 pouts \<longrightarrow>
            (Comments m = pre @ c # post \<longrightarrow>
             answered L E m (EffectiveTimeout d) s0 pre s2 outs \<longrightarrow>
             Session_Execute L E m (EffectiveTimeout d) s2 c = Some (s3, out, Some err) \<longrightarrow>
               ConnectAndExecute L E d m = Some (s3, [], [], Some (ExecuteComment c err))) \<and>
            (answered L E m (EffectiveTimeout d) s0 (Comments m) sa co \<longrightarrow>
             Commands m = pre @ c # post \<longrightarrow>
             answered L E m (EffectiveTimeout d) sa pre s2 outs \<longrightarrow>
             Session_Execute L E m (EffectiveTimeout d) s2 c = Some (s3, out, Some err) \<longrightarrow>
               ConnectAndExecute L E d m = Some (s3, co, [], Some (ExecuteQ c err)))))) \<and>
   (wr_fault E (length (sent s)) = None \<longrightarrow> Compile L (Prompt m) = Inr re \<longrightarrow>
      Session_Execute L E m t s c = readUntil L E m t re (s\<lparr>sent := sent s @ [c @ [LF]]\<rparr>)) \<and>
   (wr_fault E (length (sent s)) = Some wmsg \<longrightarrow>
      Session_Execute L E m t s c =
        Some (s\<lparr>sent := sent s @ [c @ [LF]]\<rparr>, [], Some (SendCommand wmsg))) \<and>
   (ConnectAndExecute L E d m = Some (sf, co', cmo', Some e) \<longrightarrow>
      Execute L E d m = Some \<lparr> Device = d, Output = [], Error = Some e \<rparr> \<and>
      deviceTask L E wfault d m = Some (\<lparr> Device = d, Output = [], Error = Some e \<rparr>, None)) \<and>
   (i < length (Devices db) \<longrightarrow>
      (map_of (Models mf) (Model (Devices db ! i)) = Some (Some m) \<longrightarrow> workers \<noteq> 0 \<longrightarrow>
       ConnectAndExecute L (envs H i) (Devices db ! i) m = Some (sf, co', cmo', Some e) \<longrightarrow>
         outcomes L H workers db mf ! i =
           Spawned (Some (\<lparr> Device = Devices db ! i, Output = [], Error = Some e \<rparr>, None))) \<and>
      (j < length (Devices db) \<longrightarrow> j \<noteq> i \<longrightarrow>
         outcomes L (H\<lparr>envs := (envs H)(i := E')\<rparr>) workers db mf ! j =
         outcomes L H workers db mf ! j))"
proof -
  let ?t = "EffectiveTimeout d"
  have A: "connect_fault E = Some msg \<longrightarrow>
      ConnectAndExecute L E d m = Some (NewSession, [], [], Some (ConnectFault msg))"
  proof
    assume "connect_fault E = Some msg"
    from ConnectAndExecute_connect_fails[OF Connect_fault[OF this]]
    show "ConnectAndExecute L E d m = Some (NewSession, [], [], Some (ConnectFault msg))" .
  qed
  have B: "connect_fault E = None \<longrightarrow>
      (ReadUntilPrompt L E m ?t NewSession = Some (s1, out0, Some err0) \<longrightarrow>
         ConnectAndExecute L E d m = Some (s1, [], [], Some (WaitInitialPrompt err0))) \<and>
      (ReadUntilPrompt L E m ?t NewSession = Some (s1, out0, None) \<longrightarrow>
         (PostLogin (Connection m) = pre @ c # post \<longrightarrow>
          answered L E m ?t s1 pre s2 outs \<longrightarrow>
          Session_Execute L E m ?t s2 c = Some (s3, out, Some err) \<longrightarrow>
            ConnectAndExecute L E d m =
              Some (s3, [], [], Some (PostLoginErr (ExecuteQ c err)))) \<and>
         (answered L E m ?t s1 (PostLogin (Connection m)) s0 pouts \<longrightarrow>
            (Comments m = pre @ c # post \<longrightarrow>
             answered L E m ?t s0 pre s2 outs \<longrightarrow>
             Session_Execute L E m ?t s2 c = Some (s3, out, Some err) \<longrightarrow>
               ConnectAndExecute L E d m = Some (s3, [], [], Some (ExecuteComment c err))) \<and>
            (answered L E m ?t s0 (Comments m) sa co \<longrightarrow>
             Commands m = pre @ c # post \<longrightarrow>
             answered L E m ?t sa pre s2 outs \<longrightarrow>
             Session_Execute L E m ?t s2 c = Some (s3, out, Some err) \<longrightarrow>
               ConnectAndExecute L E d m = Some (s3, co, [], Some (ExecuteQ c err)))))"
  proof (intro impI conjI)
    assume cf: "connect_fault E = None"
    {
      assume "ReadUntilPrompt L E m ?t NewSession = Some (s1, out0, Some err0)"
      from ConnectAndExecute_connect_fails[OF Connect_prompt_fails[OF cf this]]
      show "ConnectAndExecute L E d m = Some (s1, [], [], Some (WaitInitialPrompt err0))" .
    }
    {
      assume p: "ReadUntilPrompt L E m ?t NewSession = Some (s1, out0, None)"
        and pl: "PostLogin (Connection m) = pre @ c # post"
        and a: "answered L E m ?t s1 pre s2 outs"
        and x: "Session_Execute L E m ?t s2 c = Some (s3, out, Some err)"
      from ConnectAndExecute_connect_fails[OF Connect_post_login_fails[OF cf p pl a x]]
      show "ConnectAndExecute L E d m =
              Some (s3, [], [], Some (PostLoginErr (ExecuteQ c err)))" .
    }
    {
      assume p: "ReadUntilPrompt L E m ?t NewSession = Some (s1, out0, None)"
        and pa: "answered L E m ?t s1 (PostLogin (Connection m)) s0 pouts"
        and cm: "Comments m = pre @ c # post"
        and a: "answered L E m ?t s0 pre s2 outs"
        and x: "Session_Execute L E m ?t s2 c = Some (s3, out, Some err)"
      from ConnectAndExecute_comment_fails[OF Connect_succeeds[OF cf p pa] cm a x]
      show "ConnectAndExecute L E d m = Some (s3, [], [], Some (ExecuteComment c err))" .
    }
    {
      assume p: "ReadUntilPrompt L E m ?t NewSession = Some (s1, out0, None)"
        and pa: "answered L E m ?t s1 (PostLogin (Connection m)) s0 pouts"
        and ca: "answered L E m ?t s0 (Comments m) sa co"
        and cm: "Commands m = pre @ c # post"
        and a: "answered L E m ?t sa pre s2 outs"
        and x: "Session_Execute L E m ?t s2 c = Some (s3, out, Some err)"
      from ConnectAndExecute_command_fails[OF Connect_succeeds[OF cf p pa] ca cm a x]
      show "ConnectAndExecute L E d m = Some (s3, co, [], Some (ExecuteQ c err))" .
    }
  qed
  have S: "wr_fault E (length (sent s)) = None \<longrightarrow> Compile L (Prompt m) = Inr re \<longrightarrow>
      Session_Execute L E m t s c = readUntil L E m t re (s\<lparr>sent := sent s @ [c @ [LF]]\<rparr>)"
    using Session_Execute_sends[of E s L m re t c] by simp
  have W: "wr_fault E (length (sent s)) = Some wmsg \<longrightarrow>
      Session_Execute L E m t s c =
        Some (s\<lparr>sent := sent s @ [c @ [LF]]\<rparr>, [], Some (SendCommand wmsg))"
    using Session_Execute_write_fails[of E s wmsg L m t c] by simp
  have C: "ConnectAndExecute L E d m = Some (sf, co', cmo', Some e) \<longrightarrow>
      Execute L E d m = Some \<lparr> Device = d, Output = [], Error = Some e \<rparr> \<and>
      deviceTask L E wfault d m = Some (\<lparr> Device = d, Output = [], Error = Some e \<rparr>, None)"
  proof
    assume h: "ConnectAndExecute L E d m = Some (sf, co', cmo', Some e)"
    have x: "Execute L E d m = Some \<lparr> Device = d, Output = [], Error = Some e \<rparr>"
      by (rule Execute_error[OF h])
    have "deviceTask L E wfault d m = Some (\<lparr> Device = d, Output = [], Error = Some e \<rparr>, None)"
      by (rule deviceTask_error[OF x]) simp
    then show "Execute L E d m = Some \<lparr> Device = d, Output = [], Error = Some e \<rparr> \<and>
      deviceTask L E wfault d m = Some (\<lparr> Device = d, Output = [], Error = Some e \<rparr>, None)"
      using x by simp
  qed
  have D: "i < length (Devices db) \<longrightarrow>
      (map_of (Models mf) (Model (Devices db ! i)) = Some (Some m) \<longrightarrow> workers \<noteq> 0 \<longrightarrow>
       ConnectAndExecute L (envs H i) (Devices db ! i) m = Some (sf, co', cmo', Some e) \<longrightarrow>
         outcomes L H workers db mf ! i =
           Spawned (Some (\<lparr> Device = Devices db ! i, Output = [], Error = Some e \<rparr>, None))) \<and>
      (j < length (Devices db) \<longrightarrow> j \<noteq> i \<longrightarrow>
         outcomes L (H\<lparr>envs := (envs H)(i := E')\<rparr>) workers db mf ! j =
         outcomes L H workers db mf ! j)"
  proof (intro impI conjI)
    assume i: "i < length (Devices db)"
    {
      assume a: "map_of (Models mf) (Model (Devices db ! i)) = Some (Some m)"
        and w: "workers \<noteq> 0"
        and f: "ConnectAndExecute L (envs H i) (Devices db ! i) m = Some (sf, co', cmo', Some e)"
      show "outcomes L H workers db mf ! i =
           Spawned (Some (\<lparr> Device = Devices db ! i, Output = [], Error = Some e \<rparr>, None))"
        unfolding outcomes_nth[OF i] by (rule dispatch_failed[OF a w f])
    }
    {
      assume j: "j < length (Devices db)" and n: "j \<noteq> i"
      have "length (Devices db) = length (Devices db)" by simp
      show "outcomes L (H\<lparr>envs := (envs H)(i := E')\<rparr>) workers db mf ! j =
         outcomes L H workers db mf ! j"
        using j n by (simp add: outcomes_nth dispatch_other_env)
    }
  qed
  show ?thesis by (rule conjI[OF A conjI[OF B conjI[OF S conjI[OF W conjI[OF C D]]]]])
qed

theorem failed_command_aborts_device_witness:
  "ConnectAndExecute lit_pkg (stalling_env\<lparr>connect_fault := Some ''dial tcp: timeout''\<rparr>)
       example_device example_model2 =
     Some (NewSession, [], [], Some (ConnectFault ''dial tcp: timeout'')) \<and>
   ConnectAndExecute lit_pkg (stalling_env\<lparr>rd := \<lambda>k. Got ''x'' None\<rparr>)
       example_device example_model2 =
     Some (\<lparr> sent = [], nreads = 1, nclock = 3, buffer = ''x'' \<rparr>, [], [],
           Some (WaitInitialPrompt TimeoutWaiting)) \<and>
   ConnectAndExecute lit_pkg
       (stalling_env\<lparr>rd := \<lambda>k. if k = 0 then Got ''sw1#'' None else Got ''x'' None\<rparr>)
       example_device example_model2 =
     Some (\<lparr> sent = [''terminal length 0'' @ [LF]], nreads = 2, nclock = 5, buffer = ''x'' \<rparr>,
           [], [], Some (PostLoginErr (ExecuteQ ''terminal length 0'' TimeoutWaiting))) \<and>
   ConnectAndExecute lit_pkg
       (example_env3\<lparr>wr_fault := \<lambda>k. if k = 1 then Some ''broken pipe'' else None\<rparr>)
       example_device example_model3 =
     Some (\<lparr> sent = [''show version'' @ [LF], ''show inventory'' @ [LF]], nreads = 2,
             nclock = 4, buffer = JoinLines [''show version'', ''EOS 4~'', ''sw1#''] \<rparr>,
           [], [], Some (ExecuteComment ''show inventory'' (SendCommand ''broken pipe''))) \<and>
   ConnectAndExecute lit_pkg stalling_env example_device example_model2 =
     Some (\<lparr> sent = [''terminal length 0'' @ [LF], ''show inventory'' @ [LF],
                     ''show running-config'' @ [LF]],
             nreads = 4, nclock = 9, buffer = ''x'' \<rparr>,
           [JoinLines [''show inventory'', ''SN 1'', ''sw1#'']], [],
           Some (ExecuteQ ''show running-config'' TimeoutWaiting)) \<and>
   Session_Execute lit_pkg stalling_env example_model2 30000000000
       \<lparr> sent = [''terminal length 0'' @ [LF], ''show inventory'' @ [LF]], nreads = 3,
         nclock = 6, buffer = JoinLines [''show inventory'', ''SN 1'', ''sw1#''] \<rparr>
       ''show running-config'' =
     readUntil lit_pkg stalling_env example_model2 30000000000 ''#''
       \<lparr> sent = [''terminal length 0'' @ [LF], ''show inventory'' @ [LF],
                 ''show running-config'' @ [LF]], nreads = 3,
         nclock = 6, buffer = JoinLines [''show inventory'', ''SN 1'', ''sw1#''] \<rparr> \<and>
   Execute lit_pkg stalling_env example_device example_model2 =
     Some \<lparr> Device = example_device, Output = [],
            Error = Some (ExecuteQ ''show running-config'' TimeoutWaiting) \<rparr> \<and>
   deviceTask lit_pkg stalling_env None example_device example_model2 =
     Some (\<lparr> Device = example_device, Output = [],
             Error = Some (ExecuteQ ''show running-config'' TimeoutWaiting) \<rparr>, None) \<and>
   outcomes lit_pkg (example_host\<lparr>envs := (envs example_host)(0 := stalling_env)\<rparr>) 5
       \<lparr> Devices = [example_device, example_device] \<rparr>
       \<lparr> Models = [(''eos'', Some example_model2)] \<rparr> ! 0 =
     Spawned (Some (\<lparr> Device = example_device, Output = [],
                      Error = Some (ExecuteQ ''show running-config'' TimeoutWaiting) \<rparr>, None)) \<and>
   outcomes lit_pkg (example_host\<lparr>envs := (envs example_host)(0 := stalling_env)\<rparr>) 5
       \<lparr> Devices = [example_device, example_device] \<rparr>
       \<lparr> Models = [(''eos'', Some example_model2)] \<rparr> ! 1 =
     outcomes lit_pkg example_host 5
       \<lparr> Devices = [example_device, example_device] \<rparr>
       \<lparr> Models = [(''eos'', Some example_model2)] \<rparr> ! 1"
proof -
  let ?t = "EffectiveTimeout example_device"
  \<comment> \<open>the connection is refused\<close>
  let ?E1 = "stalling_env\<lparr>connect_fault := Some ''dial tcp: timeout''\<rparr>"
  have cf1: "connect_fault ?E1 = Some ''dial tcp: timeout''" by simp
  have A: "ConnectAndExecute lit_pkg ?E1 example_device example_model2 =
             Some (NewSession, [], [], Some (ConnectFault ''dial tcp: timeout''))"
    by (rule failed_command_aborts_device
          [where E = ?E1 and L = lit_pkg and d = example_device and m = example_model2,
           THEN conjunct1, THEN mp, OF cf1])
  \<comment> \<open>the initial prompt does not come\<close>
  let ?E2 = "stalling_env\<lparr>rd := \<lambda>k. Got ''x'' None\<rparr>"
  let ?q2 = "\<lparr> sent = [], nreads = 1, nclock = 3, buffer = ''x'' \<rparr>"
  have cf2: "connect_fault ?E2 = None" by (simp add: stalling_env_def)
  have p2: "ReadUntilPrompt lit_pkg ?E2 example_model2 ?t NewSession =
              Some (?q2, ''x'', Some TimeoutWaiting)"
    by code_simp
  have B: "ConnectAndExecute lit_pkg ?E2 example_device example_model2 =
             Some (?q2, [], [], Some (WaitInitialPrompt TimeoutWaiting))"
    by (rule failed_command_aborts_device
          [where E = ?E2 and L = lit_pkg and d = example_device and m = example_model2,
           THEN conjunct2, THEN conjunct1, THEN mp, OF cf2, THEN conjunct1, THEN mp, OF p2])
  \<comment> \<open>the post-login command gets no prompt\<close>
  let ?E3 = "stalling_env\<lparr>rd := \<lambda>k. if k = 0 then Got ''sw1#'' None else Got ''x'' None\<rparr>"
  let ?p1 = "\<lparr> sent = [], nreads = 1, nclock = 2, buffer = ''sw1#'' \<rparr>"
  let ?q3 = "\<lparr> sent = [''terminal length 0'' @ [LF]], nreads = 2, nclock = 5, buffer = ''x'' \<rparr>"
  have cf3: "connect_fault ?E3 = None" by (simp add: stalling_env_def)
  have p3: "ReadUntilPrompt lit_pkg ?E3 example_model2 ?t NewSession = Some (?p1, ''sw1#'', None)"
    by code_simp
  have pl3: "PostLogin (Connection example_model2) = [] @ ''terminal length 0'' # []"
    by (simp add: example_model2_def example_model_def)
  have a3: "answered lit_pkg ?E3 example_model2 ?t ?p1 [] ?p1 []" by simp
  have x3: "Session_Execute lit_pkg ?E3 example_model2 ?t ?p1 ''terminal length 0'' =
              Some (?q3, ''x'', Some TimeoutWaiting)"
    by code_simp
  have C: "ConnectAndExecute lit_pkg ?E3 example_device example_model2 =
             Some (?q3, [], [], Some (PostLoginErr (ExecuteQ ''terminal length 0'' TimeoutWaiting)))"
    by (rule failed_command_aborts_device
          [where E = ?E3 and L = lit_pkg and d = example_device and m = example_model2,
           THEN conjunct2, THEN conjunct1, THEN mp, OF cf3, THEN conjunct2, THEN mp, OF p3,
           THEN conjunct1, THEN mp, OF pl3, THEN mp, OF a3, THEN mp, OF x3])
  \<comment> \<open>the second annotation command cannot be written\<close>
  let ?E4 = "example_env3\<lparr>wr_fault := \<lambda>k. if k = 1 then Some ''broken pipe'' else None\<rparr>"
  let ?v = "JoinLines [''show version'', ''EOS 4~'', ''sw1#'']"
  let ?q4a = "\<lparr> sent = [''show version'' @ [LF]], nreads = 2, nclock = 4, buffer = ?v \<rparr>"
  let ?q4 = "\<lparr> sent = [''show version'' @ [LF], ''show inventory'' @ [LF]], nreads = 2,
               nclock = 4, buffer = ?v \<rparr>"
  have cf4: "connect_fault ?E4 = None" by (simp add: example_env3_def)
  have p4: "ReadUntilPrompt lit_pkg ?E4 example_model3 ?t NewSession = Some (?p1, ''sw1#'', None)"
    by code_simp
  have pa4: "answered lit_pkg ?E4 example_model3 ?t ?p1 (PostLogin (Connection example_model3))
               ?p1 []"
    by (simp add: example_model3_def)
  have cm4: "Comments example_model3 = [''show version''] @ ''show inventory'' # []"
    by (simp add: example_model3_def)
  have a4: "answered lit_pkg ?E4 example_model3 ?t ?p1 [''show version''] ?q4a [?v]"
    by code_simp
  have x4: "Session_Execute lit_pkg ?E4 example_model3 ?t ?q4a ''show inventory'' =
              Some (?q4, [], Some (SendCommand ''broken pipe''))"
    by code_simp
  have D: "ConnectAndExecute lit_pkg ?E4 example_device example_model3 =
             Some (?q4, [], [], Some (ExecuteComment ''show inventory'' (SendCommand ''broken pipe'')))"
    by (rule failed_command_aborts_device
          [where E = ?E4 and L = lit_pkg and d = example_device and m = example_model3,
           THEN conjunct2, THEN conjunct1, THEN mp, OF cf4, THEN conjunct2, THEN mp, OF p4,
           THEN conjunct2, THEN mp, OF pa4, THEN conjunct1, THEN mp, OF cm4, THEN mp, OF a4,
           THEN mp, OF x4])
  \<comment> \<open>the first capture command gets no prompt before the deadline\<close>
  let ?i = "JoinLines [''show inventory'', ''SN 1'', ''sw1#'']"
  let ?q5a = "\<lparr> sent = [''terminal length 0'' @ [LF]], nreads = 2, nclock = 4, buffer = ''sw1#'' \<rparr>"
  let ?q5b = "\<lparr> sent = [''terminal length 0'' @ [LF], ''show inventory'' @ [LF]], nreads = 3,
                nclock = 6, buffer = ?i \<rparr>"
  let ?q5c = "\<lparr> sent = [''terminal length 0'' @ [LF], ''show inventory'' @ [LF],
                        ''show running-config'' @ [LF]], nreads = 3, nclock = 6, buffer = ?i \<rparr>"
  let ?q5 = "\<lparr> sent = [''terminal length 0'' @ [LF], ''show inventory'' @ [LF],
                       ''show running-config'' @ [LF]],
               nreads = 4, nclock = 9, buffer = ''x'' \<rparr>"
  let ?e = "ExecuteQ ''show running-config'' TimeoutWaiting"
  have cf5: "connect_fault stalling_env = None" by (simp add: stalling_env_def)
  have p5: "ReadUntilPrompt lit_pkg stalling_env example_model2 ?t NewSession =
              Some (?p1, ''sw1#'', None)"
    by code_simp
  have pa5: "answered lit_pkg stalling_env example_model2 ?t ?p1
               (PostLogin (Connection example_model2)) ?q5a [''sw1#'']"
    by code_simp
  have ca5: "answered lit_pkg stalling_env example_model2 ?t ?q5a (Comments example_model2)
               ?q5b [?i]"
    by code_simp
  have cm5: "Commands example_model2 = [] @ ''show running-config'' # [''show version'']"
    by (simp add: example_model2_def)
  have a5: "answered lit_pkg stalling_env example_model2 ?t ?q5b [] ?q5b []" by simp
  have x5: "Session_Execute lit_pkg stalling_env example_model2 ?t ?q5b ''show running-config'' =
              Some (?q5, ''x'', Some TimeoutWaiting)"
    by code_simp
  have F: "ConnectAndExecute lit_pkg stalling_env example_device example_model2 =
             Some (?q5, [?i], [], Some ?e)"
    by (rule failed_command_aborts_device
          [where E = stalling_env and L = lit_pkg and d = example_device and m = example_model2,
           THEN conjunct2, THEN conjunct1, THEN mp, OF cf5, THEN conjunct2, THEN mp, OF p5,
           THEN conjunct2, THEN mp, OF pa5, THEN conjunct2, THEN mp, OF ca5, THEN mp, OF cm5,
           THEN mp, OF a5, THEN mp, OF x5])
  \<comment> \<open>what running a command is\<close>
  have w5: "wr_fault stalling_env (length (sent ?q5b)) = None" by (simp add: stalling_env_def)
  have c5: "Compile lit_pkg (Prompt example_model2) = Inr ''#''" by code_simp
  have G: "Session_Execute lit_pkg stalling_env example_model2 30000000000 ?q5b
              ''show running-config'' =
            readUntil lit_pkg stalling_env example_model2 30000000000 ''#'' ?q5c"
    using failed_command_aborts_device
          [where E = stalling_env and L = lit_pkg and m = example_model2 and s = ?q5b
             and t = 30000000000 and c = "''show running-config''",
           THEN conjunct2, THEN conjunct2, THEN conjunct1, THEN mp, OF w5, THEN mp, OF c5]
    by simp
  \<comment> \<open>the Result of the device\<close>
  have H: "Execute lit_pkg stalling_env example_device example_model2 =
             Some \<lparr> Device = example_device, Output = [], Error = Some ?e \<rparr> \<and>
           deviceTask lit_pkg stalling_env None example_device example_model2 =
             Some (\<lparr> Device = example_device, Output = [], Error = Some ?e \<rparr>, None)"
    by (rule failed_command_aborts_device
          [where E = stalling_env and L = lit_pkg and d = example_device and m = example_model2
             and wfault = None,
           THEN conjunct2, THEN conjunct2, THEN conjunct2, THEN conjunct2, THEN conjunct1,
           THEN mp, OF F])
  \<comment> \<open>two devices, the first of which fails\<close>
  let ?H = "example_host\<lparr>envs := (envs example_host)(0 := stalling_env)\<rparr>"
  let ?db = "\<lparr> Devices = [example_device, example_device] \<rparr>"
  let ?mf = "\<lparr> Models = [(''eos'', Some example_model2)] \<rparr>"
  have i0: "0 < length (Devices ?db)" by simp
  have j1: "1 < length (Devices ?db)" by simp
  have n: "(1::nat) \<noteq> 0" by simp
  have mo: "map_of (Models ?mf) (Model (Devices ?db ! 0)) = Some (Some example_model2)"
    by (simp add: example_device_def)
  have w: "(5::int) \<noteq> 0" by simp
  have f: "ConnectAndExecute lit_pkg (envs ?H 0) (Devices ?db ! 0) example_model2 =
             Some (?q5, [?i], [], Some ?e)"
    using F by simp
  have I: "outcomes lit_pkg ?H 5 ?db ?mf ! 0 =
             Spawned (Some (\<lparr> Device = example_device, Output = [], Error = Some ?e \<rparr>, None))"
    using failed_command_aborts_device
          [where L = lit_pkg and H = ?H and db = ?db and mf = ?mf and i = 0 and workers = 5
             and m = example_model2,
           THEN conjunct2, THEN conjunct2, THEN conjunct2, THEN conjunct2, THEN conjunct2,
           THEN mp, OF i0, THEN conjunct1, THEN mp, OF mo, THEN mp, OF w, THEN mp, OF f]
    by simp
  have J: "outcomes lit_pkg ?H 5 ?db ?mf ! 1 = outcomes lit_pkg example_host 5 ?db ?mf ! 1"
    using failed_command_aborts_device
          [where L = lit_pkg and H = example_host and db = ?db and mf = ?mf and i = 0
             and j = 1 and workers = 5 and E' = stalling_env,
           THEN conjunct2, THEN conjunct2, THEN conjunct2, THEN conjunct2, THEN conjunct2,
           THEN mp, OF i0, THEN conjunct2, THEN mp, OF j1, THEN mp, OF n]
    by simp
  show ?thesis
    by (rule conjI[OF A conjI[OF B conjI[OF C conjI[OF D conjI[OF F conjI[OF G
          conjI[OF H[THEN conjunct1] conjI[OF H[THEN conjunct2] conjI[OF I J]]]]]]]]])
qed

section \<open>A device whose model is unknown\<close>

lemma buildResult_Device: "buildResult L d m x = Some r \<Longrightarrow> Device r = d"
  by (auto simp: buildResult_def split: prod.splits option.splits sum.splits)

lemma deviceTask_Device: "deviceTask L E wfault d m = Some (r, w) \<Longrightarrow> Device r = d"
proof -
  assume a: "deviceTask L E wfault d m = Some (r, w)"
  then obtain r0 where r0: "Execute L E d m = Some r0"
    by (cases "Execute L E d m") (auto simp: deviceTask_def)
  then have "Device r0 = d"
    by (auto simp: Execute_def split: option.splits prod.splits dest: buildResult_Device)
  then show ?thesis using a r0
    by (auto simp: deviceTask_def split: if_splits option.splits)
qed

lemma delivered_Device:
  assumes "j < length (Devices db)"
    and "delivered (outcomes L H workers db mf ! j) = Some r"
  shows "Device r = Devices db ! j"
proof (cases "map_of (Models mf) (Model (Devices db ! j))")
  case None
  then show ?thesis using assms by (auto simp: outcomes_nth dispatch_def)
next
  case (Some model)
  show ?thesis
  proof (cases "workers = 0")
    case True
    then show ?thesis using assms Some by (simp add: outcomes_nth dispatch_def)
  next
    case False
    note w = False
    show ?thesis
    proof (cases model)
      case None
      then show ?thesis using assms Some w
        by (cases "connect_fault (envs H j)")
           (auto simp: outcomes_nth dispatch_def nilModelTask_def)
    next
      case (Some m)
      note sm = Some
      obtain x where
        "deviceTask L (envs H j) (wfaults H j) (Devices db ! j) m = Some (r, x)"
        using assms \<open>map_of (Models mf) (Model (Devices db ! j)) = Some model\<close> w sm
        by (cases "deviceTask L (envs H j) (wfaults H j) (Devices db ! j) m")
           (auto simp: outcomes_nth dispatch_def)
      then show ?thesis by (rule deviceTask_Device)
    qed
  qed
qed

lemma executeBackups_Some:
  assumes "executeBackups L H workers db mf = Some rs"
  shows "rs = map (\<lambda>k. the (delivered (outcomes L H workers db mf ! k)))
                  (sort_key (finish H) [0..<length (Devices db)]) \<and>
         (\<forall>k < length (Devices db). delivered (outcomes L H workers db mf ! k) \<noteq> None)"
proof -
  let ?outs = "outcomes L H workers db mf"
  let ?p = "sort_key (finish H) [0..<length (Devices db)]"
  have w: "\<not> workers < 0" using assms by (auto simp: executeBackups_def)
  have nn: "None \<notin> set (map delivered ?outs)"
    using assms w by (auto simp: executeBackups_def Let_def split: if_splits)
  have rs: "rs = map (\<lambda>k. the (map delivered ?outs ! k)) ?p"
    using assms w nn by (auto simp: executeBackups_def Let_def split: if_splits)
  have "map (\<lambda>k. the (map delivered ?outs ! k)) ?p = map (\<lambda>k. the (delivered (?outs ! k))) ?p"
    by (rule map_cong) (simp_all add: outcomes_length)
  moreover have "\<forall>k < length (Devices db). delivered (?outs ! k) \<noteq> None"
  proof (intro allI impI)
    fix k assume k: "k < length (Devices db)"
    then have "delivered (?outs ! k) \<in> set (map delivered ?outs)"
      by (simp add: outcomes_length)
    then show "delivered (?outs ! k) \<noteq> None" using nn by metis
  qed
  ultimately show ?thesis using rs by simp
qed

lemma executeBackups_returns:
  assumes "0 \<le> workers"
    and "\<forall>k < length (Devices db). delivered (outcomes L H workers db mf ! k) \<noteq> None"
  shows "\<exists>rs. executeBackups L H workers db mf = Some rs"
proof -
  have "None \<notin> set (map delivered (outcomes L H workers db mf))"
  proof
    assume "None \<in> set (map delivered (outcomes L H workers db mf))"
    then obtain k where "k < length (outcomes L H workers db mf)"
        "delivered (outcomes L H workers db mf ! k) = None"
      by (auto simp: in_set_conv_nth)
    then show False using assms(2) by (simp add: outcomes_length)
  qed
  then show ?thesis using assms(1) by (simp add: executeBackups_def Let_def)
qed

lemma outcomes_other_device:
  assumes "j < length (Devices db)" and "j \<noteq> i"
  shows "outcomes L H workers (db\<lparr>Devices := (Devices db)[i := d']\<rparr>) mf ! j =
         outcomes L H workers db mf ! j"
  using assms by (simp add: outcomes_nth)

lemma outcomes_unknown:
  assumes "i < length (Devices db)"
    and "map_of (Models mf) (Model (Devices db ! i)) = None"
  shows "outcomes L H workers db mf ! i =
           Immediate \<lparr> Device = Devices db ! i, Output = [],
                       Error = Some (ModelNotFound (Model (Devices db ! i))) \<rparr>"
  using assms by (simp add: outcomes_nth dispatch_def)

text \<open>
  C7: for the device at position \<open>i\<close> whose model is not in the model file, the dispatch
  loop sends at once a result holding the error and no text, and starts no task, hence
  attempts no connection. The outcome of every other device is the same whatever stands
  at position \<open>i\<close>. When \<open>executeBackups\<close> returns, it returns as many results as there are
  devices: the results delivered for the positions \<open>0, \<dots>, n - 1\<close>, each once, in the order
  of arrival, the one for position \<open>k\<close> naming the device at \<open>k\<close>. And it returns whenever
  the worker count is not negative and every device delivers its result.
\<close>

theorem unknown_model_immediate_error:
  assumes "i < length (Devices db)"
    and "map_of (Models mf) (Model (Devices db ! i)) = None"
  shows "outcomes L H workers db mf ! i =
           Immediate \<lparr> Device = Devices db ! i, Output = [],
                       Error = Some (ModelNotFound (Model (Devices db ! i))) \<rparr> \<and>
         i \<notin> set (startedTasks L H workers db mf) \<and>
         (\<forall>j d'. j < length (Devices db) \<longrightarrow> j \<noteq> i \<longrightarrow>
            outcomes L H workers (db\<lparr>Devices := (Devices db)[i := d']\<rparr>) mf ! j =
            outcomes L H workers db mf ! j) \<and>
         (\<forall>rs. executeBackups L H workers db mf = Some rs \<longrightarrow>
            length rs = length (Devices db) \<and>
            distinct (sort_key (finish H) [0..<length (Devices db)]) \<and>
            set (sort_key (finish H) [0..<length (Devices db)]) = {0..<length (Devices db)} \<and>
            rs = map (\<lambda>k. the (delivered (outcomes L H workers db mf ! k)))
                     (sort_key (finish H) [0..<length (Devices db)]) \<and>
            (\<forall>k < length (Devices db).
               \<exists>r. delivered (outcomes L H workers db mf ! k) = Some r \<and>
                   Device r = Devices db ! k)) \<and>
         (0 \<le> workers \<longrightarrow>
            (\<forall>k < length (Devices db). delivered (outcomes L H workers db mf ! k) \<noteq> None) \<longrightarrow>
            (\<exists>rs. executeBackups L H workers db mf = Some rs))"
proof -
  have A: "outcomes L H workers db mf ! i =
           Immediate \<lparr> Device = Devices db ! i, Output = [],
                       Error = Some (ModelNotFound (Model (Devices db ! i))) \<rparr>"
    by (rule outcomes_unknown[OF assms])
  have B: "i \<notin> set (startedTasks L H workers db mf)"
    using A by (simp add: startedTasks_def)
  have C: "\<forall>j d'. j < length (Devices db) \<longrightarrow> j \<noteq> i \<longrightarrow>
            outcomes L H workers (db\<lparr>Devices := (Devices db)[i := d']\<rparr>) mf ! j =
            outcomes L H workers db mf ! j"
    using outcomes_other_device by blast
  have D: "\<forall>rs. executeBackups L H workers db mf = Some rs \<longrightarrow>
            length rs = length (Devices db) \<and>
            distinct (sort_key (finish H) [0..<length (Devices db)]) \<and>
            set (sort_key (finish H) [0..<length (Devices db)]) = {0..<length (Devices db)} \<and>
            rs = map (\<lambda>k. the (delivered (outcomes L H workers db mf ! k)))
                     (sort_key (finish H) [0..<length (Devices db)]) \<and>
            (\<forall>k < length (Devices db).
               \<exists>r. delivered (outcomes L H workers db mf ! k) = Some r \<and>
                   Device r = Devices db ! k)"
  proof (intro allI impI)
    fix rs assume e: "executeBackups L H workers db mf = Some rs"
    note s = executeBackups_Some[OF e]
    have l: "length rs = length (Devices db)" using s by simp
    have dv: "\<forall>k < length (Devices db).
               \<exists>r. delivered (outcomes L H workers db mf ! k) = Some r \<and>
                   Device r = Devices db ! k"
    proof (intro allI impI)
      fix k assume k: "k < length (Devices db)"
      then obtain r where r: "delivered (outcomes L H workers db mf ! k) = Some r"
        using s by auto
      from delivered_Device[OF k r] r
      show "\<exists>r. delivered (outcomes L H workers db mf ! k) = Some r \<and> Device r = Devices db ! k"
        by simp
    qed
    show "length rs = length (Devices db) \<and>
            distinct (sort_key (finish H) [0..<length (Devices db)]) \<and>
            set (sort_key (finish H) [0..<length (Devices db)]) = {0..<length (Devices db)} \<and>
            rs = map (\<lambda>k. the (delivered (outcomes L H workers db mf ! k)))
                     (sort_key (finish H) [0..<length (Devices db)]) \<and>
            (\<forall>k < length (Devices db).
               \<exists>r. delivered (outcomes L H workers db mf ! k) = Some r \<and>
                   Device r = Devices db ! k)"
      using l s dv by simp
  qed
  have E: "0 \<le> workers \<longrightarrow>
            (\<forall>k < length (Devices db). delivered (outcomes L H workers db mf ! k) \<noteq> None) \<longrightarrow>
            (\<exists>rs. executeBackups L H workers db mf = Some rs)"
    using executeBackups_returns by blast
  show ?thesis by (rule conjI[OF A conjI[OF B conjI[OF C conjI[OF D E]]]])
qed

theorem unknown_model_immediate_error_witness:
  "(0::nat) < length (Devices \<lparr> Devices = [ghost_device, example_device] \<rparr>) \<and>
   map_of (Models \<lparr> Models = [(''eos'', Some example_model)] \<rparr>)
          (Model (Devices \<lparr> Devices = [ghost_device, example_device] \<rparr> ! 0)) = None \<and>
   outcomes lit_pkg example_host 5 \<lparr> Devices = [ghost_device, example_device] \<rparr>
            \<lparr> Models = [(''eos'', Some example_model)] \<rparr> ! 0 =
     Immediate \<lparr> Device = ghost_device, Output = [], Error = Some (ModelNotFound ''ghost'') \<rparr> \<and>
   startedTasks lit_pkg example_host 5 \<lparr> Devices = [ghost_device, example_device] \<rparr>
            \<lparr> Models = [(''eos'', Some example_model)] \<rparr> = [1] \<and>
   executeBackups lit_pkg example_host 5 \<lparr> Devices = [ghost_device, example_device] \<rparr>
            \<lparr> Models = [(''eos'', Some example_model)] \<rparr> =
     Some [\<lparr> Device = ghost_device, Output = [], Error = Some (ModelNotFound ''ghost'') \<rparr>,
           \<lparr> Device = example_device,
             Output = JoinLines [''! show inventory'', ''! SN 1'', ''! sw1#'',
                        ''! show running-config'', ''enable secret <removed>'', ''! sw1#''],
             Error = None \<rparr>] \<and>
   length [\<lparr> Device = ghost_device, Output = [], Error = Some (ModelNotFound ''ghost'') \<rparr>,
           \<lparr> Device = example_device,
             Output = JoinLines [''! show inventory'', ''! SN 1'', ''! sw1#'',
                        ''! show running-config'', ''enable secret <removed>'', ''! sw1#''],
             Error = None \<rparr>] =
     length (Devices \<lparr> Devices = [ghost_device, example_device] \<rparr>)"
proof -
  let ?db = "\<lparr> Devices = [ghost_device, example_device] \<rparr>"
  let ?mf = "\<lparr> Models = [(''eos'', Some example_model)] \<rparr>"
  let ?rs = "[\<lparr> Device = ghost_device, Output = [], Error = Some (ModelNotFound ''ghost'') \<rparr>,
           \<lparr> Device = example_device,
             Output = JoinLines [''! show inventory'', ''! SN 1'', ''! sw1#'',
                        ''! show running-config'', ''enable secret <removed>'', ''! sw1#''],
             Error = None \<rparr>]"
  have i: "(0::nat) < length (Devices ?db)" by simp
  have m: "map_of (Models ?mf) (Model (Devices ?db ! 0)) = None" by code_simp
  have g: "Devices ?db ! 0 = ghost_device" by simp
  have gm: "Model ghost_device = ''ghost''" by code_simp
  have st: "startedTasks lit_pkg example_host 5 ?db ?mf = [1]" by code_simp
  have ex: "executeBackups lit_pkg example_host 5 ?db ?mf = Some ?rs" by code_simp
  note t = unknown_model_immediate_error[OF i m, of lit_pkg example_host 5]
  have o: "outcomes lit_pkg example_host 5 ?db ?mf ! 0 =
     Immediate \<lparr> Device = ghost_device, Output = [], Error = Some (ModelNotFound ''ghost'') \<rparr>"
    using t unfolding g gm by blast
  have l: "length ?rs = length (Devices ?db)" using t ex by blast
  show ?thesis using i m o st ex l by blast
qed

end
